theory Spec2Isabelle
  imports Complex_Main "HOL-Library.Word" "HOL-Library.Signed_Division"
begin

section \<open>Numeric types of the actors\<close>

text \<open>
  \<^verbatim>\<open>abi.ChainEpoch\<close> is Go's \<^verbatim>\<open>int64\<close>: a 64-bit word whose arithmetic wraps around
  and whose comparisons and remainder read it as two's complement.
  \<^verbatim>\<open>abi.TokenAmount\<close> and \<^verbatim>\<open>abi.DealWeight\<close> are \<^verbatim>\<open>big.Int\<close>: unbounded integers.
  \<^verbatim>\<open>abi.DealID\<close>, \<^verbatim>\<open>abi.SectorNumber\<close> and \<^verbatim>\<open>abi.PaddedPieceSize\<close> are \<^verbatim>\<open>uint64\<close>.
\<close>

type_synonym ChainEpoch = "64 word"
type_synonym TokenAmount = int
type_synonym DealID = "64 word"
type_synonym SectorNumber = "64 word"

text \<open>Signed comparison of two \<^verbatim>\<open>int64\<close> values.\<close>

definition i64_less :: "64 word \<Rightarrow> 64 word \<Rightarrow> bool" where
  "i64_less a b = (sint a < sint b)"

text \<open>
  Go's \<^verbatim>\<open>%\<close> on \<^verbatim>\<open>int64\<close>: the remainder of the division truncated towards zero (it has
  the sign of the dividend). The divisor 0 panics in Go; callers check it first.
\<close>

definition i64_rem :: "64 word \<Rightarrow> 64 word \<Rightarrow> 64 word" where
  "i64_rem a b = word_of_int (sint a smod sint b)"

section \<open>Miner policy (policy.go)\<close>

record BigFrac =
  numerator :: int
  denominator :: int

definition consensusFaultReporterInitialShare :: BigFrac where
  "consensusFaultReporterInitialShare = \<lparr>numerator = 1, denominator = 1000\<rparr>"

definition consensusFaultReporterShareGrowthRate :: BigFrac where
  "consensusFaultReporterShareGrowthRate = \<lparr>numerator = 101251, denominator = 100000\<rparr>"

text \<open>
  Modelled from the spec: the package \<^verbatim>\<open>actors/abi/big\<close> (\<^verbatim>\<open>big.Exp\<close>, \<^verbatim>\<open>big.Div\<close>) is
  not among the sources. The spec writes \<^verbatim>\<open>growthRate^elapsed\<close> for the power and calls the
  quotient an integer truncated division. A non-positive exponent gives 1.
\<close>

definition big_Exp :: "int \<Rightarrow> int \<Rightarrow> int" where
  "big_Exp b e = b ^ nat e"

definition big_Div :: "int \<Rightarrow> int \<Rightarrow> int" where
  "big_Div a b = a sdiv b"

definition rewardForConsensusSlashReport :: "ChainEpoch \<Rightarrow> TokenAmount \<Rightarrow> TokenAmount" where
  "rewardForConsensusSlashReport elapsedEpoch collateral =
     (let maxReporterShareNum = 1;
          maxReporterShareDen = 2;
          elapsed = sint elapsedEpoch;
          slasherShareNumerator = big_Exp (numerator consensusFaultReporterShareGrowthRate) elapsed;
          slasherShareDenominator = big_Exp (denominator consensusFaultReporterShareGrowthRate) elapsed;
          num = slasherShareNumerator * numerator consensusFaultReporterInitialShare * collateral;
          denom = slasherShareDenominator * denominator consensusFaultReporterInitialShare
      in min (big_Div num denom) (big_Div (collateral * maxReporterShareNum) maxReporterShareDen))"

text \<open>
  The reward as the specification words it: the smaller of
  \<^verbatim>\<open>collateral * initialShare * growthRate^elapsed\<close> and \<^verbatim>\<open>collateral / 2\<close>, over the
  rationals, with \<^verbatim>\<open>initialShare = 1/1000\<close> and \<^verbatim>\<open>growthRate = 101251/100000\<close>.
\<close>

definition reward_spec :: "nat \<Rightarrow> int \<Rightarrow> rat" where
  "reward_spec elapsed collateral =
     min (of_int collateral * (1 / 1000) * (101251 / 100000) ^ elapsed) (of_int collateral / 2)"

section \<open>Miner state helpers (miner_state.go)\<close>

datatype fault = DivideByZero | AssertionFailed | TooMany | KeyNotFound

text \<open>
  \<^verbatim>\<open>quantizeUp\<close> rounds an epoch up to a multiple of the unit. A zero unit makes Go's
  \<^verbatim>\<open>%\<close> panic, which is the \<open>Inl\<close> branch.
\<close>

definition quantizeUp :: "ChainEpoch \<Rightarrow> ChainEpoch \<Rightarrow> fault + ChainEpoch" where
  "quantizeUp e unit =
     (if unit = 0 then Inl DivideByZero
      else let remainder = i64_rem e unit
           in if remainder = 0 then Inr e else Inr (e - remainder + unit))"


definition EpochKey :: "ChainEpoch \<Rightarrow> 64 word" where
  "EpochKey e = e"

subsection \<open>Persistent containers\<close>

text \<open>
  Modelled from the spec: \<^verbatim>\<open>adt.Array\<close> (the AMT of \<^verbatim>\<open>actors/util/adt\<close>) is not among the
  sources. The spec calls it a sparse map from an unsigned 64-bit index to a value, iterated
  in ascending index order. It is kept as the list of its entries in ascending key order
  (\<open>Array_wf\<close>); \<^verbatim>\<open>Get\<close> reports a missing index as not found, \<^verbatim>\<open>Set\<close> inserts or
  overwrites, \<^verbatim>\<open>Delete\<close> removes the index.
\<close>

type_synonym 'v Array = "(64 word \<times> 'v) list"

definition Array_wf :: "'v Array \<Rightarrow> bool" where
  "Array_wf arr = sorted_wrt (<) (map fst arr)"

definition Array_Get :: "'v Array \<Rightarrow> 64 word \<Rightarrow> 'v option" where
  "Array_Get arr k = map_of arr k"

fun Array_Set :: "64 word \<Rightarrow> 'v \<Rightarrow> 'v Array \<Rightarrow> 'v Array" where
  "Array_Set k v [] = [(k, v)]"
| "Array_Set k v ((k', v') # arr) =
     (if k < k' then (k, v) # (k', v') # arr
      else if k = k' then (k, v) # arr
      else (k', v') # Array_Set k v arr)"

definition Array_Delete :: "64 word \<Rightarrow> 'v Array \<Rightarrow> 'v Array" where
  "Array_Delete k arr = filter (\<lambda>kv. fst kv \<noteq> k) arr"

definition deleteMany :: "'v Array \<Rightarrow> 64 word list \<Rightarrow> 'v Array" where
  "deleteMany arr keys = fold Array_Delete keys arr"

text \<open>
  Modelled from the spec: \<^verbatim>\<open>abi.BitField\<close> (go-bitfield) is not among the sources. The spec
  calls it a set of unsigned 64-bit integers with union, difference, count and iteration.
\<close>

type_synonym BitField = "64 word set"

definition SectorsMax :: nat where
  "SectorsMax = 33554432"

subsection \<open>Miner state\<close>

text \<open>
  The fields of \<^verbatim>\<open>miner.State\<close> that the fault and vesting operations read or write.
  (\<^verbatim>\<open>Info\<close>, \<^verbatim>\<open>PreCommittedSectors\<close>, \<^verbatim>\<open>Sectors\<close> and \<^verbatim>\<open>Deadlines\<close> are untouched by them.)
\<close>

record MinerState =
  PreCommitDeposits :: TokenAmount
  LockedFunds :: TokenAmount
  VestingFunds :: "TokenAmount Array"
  NewSectors :: BitField
  SectorExpirations :: "BitField Array"
  Faults :: BitField
  FaultEpochs :: "BitField Array"
  Recoveries :: BitField
  PostSubmissions :: BitField

record VestSpec =
  InitialDelay :: ChainEpoch
  VestPeriod :: ChainEpoch
  StepDuration :: ChainEpoch
  Quantization :: ChainEpoch

subsection \<open>Faults\<close>

definition AddFaults :: "MinerState \<Rightarrow> BitField \<Rightarrow> ChainEpoch \<Rightarrow> fault + MinerState" where
  "AddFaults st sectorNos faultEpoch =
     (if sectorNos = {} then Inr st
      else
        let faults = Faults st \<union> sectorNos
        in if card faults > SectorsMax then Inl TooMany
           else
             let epochFaultArr = FaultEpochs st;
                 bf = (case Array_Get epochFaultArr (EpochKey faultEpoch) of
                         None \<Rightarrow> {} | Some b \<Rightarrow> b);
                 bf' = bf \<union> sectorNos
             in Inr (st\<lparr>Faults := faults,
                        FaultEpochs := Array_Set (EpochKey faultEpoch) bf' epochFaultArr\<rparr>))"

text \<open>
  The \<^verbatim>\<open>ForEach\<close> of \<^verbatim>\<open>RemoveFaults\<close>: the entries whose bitfield loses a sector, with
  the reduced bitfield (the Go map \<^verbatim>\<open>changed\<close>, whose keys are distinct).
\<close>

fun RemoveFaults_changed :: "BitField \<Rightarrow> BitField Array \<Rightarrow> BitField Array" where
  "RemoveFaults_changed sectorNos [] = []"
| "RemoveFaults_changed sectorNos ((i, bf1) # arr) =
     (let c1 = card bf1;
          bf2 = bf1 - sectorNos;
          c2 = card bf2
      in if c1 \<noteq> c2 then (i, bf2) # RemoveFaults_changed sectorNos arr
         else RemoveFaults_changed sectorNos arr)"

definition RemoveFaults :: "MinerState \<Rightarrow> BitField \<Rightarrow> fault + MinerState" where
  "RemoveFaults st sectorNos =
     (if sectorNos = {} then Inr st
      else
        let faults = Faults st - sectorNos;
            arr = FaultEpochs st;
            changed = RemoveFaults_changed sectorNos arr;
            arr' = fold (\<lambda>(i, field) a. Array_Set i field a) changed arr
        in Inr (st\<lparr>Faults := faults, FaultEpochs := arr'\<rparr>))"

subsection \<open>Funds and vesting\<close>

text \<open>
  One pass of the loop of \<^verbatim>\<open>AddLockedFunds\<close>: the vesting target reached at epoch \<open>e\<close>
  and the table with this step's share added. \<^verbatim>\<open>big.Div\<close> by a zero period panics.
\<close>

definition AddLockedFunds_step ::
  "TokenAmount \<Rightarrow> VestSpec \<Rightarrow> ChainEpoch \<Rightarrow> ChainEpoch \<Rightarrow> TokenAmount \<Rightarrow> TokenAmount Array
     \<Rightarrow> fault + (TokenAmount \<times> TokenAmount Array)" where
  "AddLockedFunds_step vestingSum spec vestBegin e vestedSoFar vestingFunds =
     (case quantizeUp e (Quantization spec) of
        Inl err \<Rightarrow> Inl err
      | Inr vestEpoch \<Rightarrow>
          let elapsed = vestEpoch - vestBegin;
              vestPeriod = sint (VestPeriod spec)
          in if i64_less elapsed (VestPeriod spec) \<and> vestPeriod = 0 then Inl DivideByZero
             else
               let targetVest =
                     (if i64_less elapsed (VestPeriod spec)
                      then big_Div (vestingSum * sint elapsed) vestPeriod
                      else vestingSum);
                   vestThisTime = targetVest - vestedSoFar;
                   key = EpochKey vestEpoch;
                   lockedFundEntry = (case Array_Get vestingFunds key of
                                        None \<Rightarrow> 0 | Some v \<Rightarrow> v)
               in Inr (targetVest, Array_Set key (lockedFundEntry + vestThisTime) vestingFunds))"

text \<open>
  The loop itself, \<^verbatim>\<open>for e := vestBegin + StepDuration; vestedSoFar < vestingSum; e += StepDuration\<close>.
  It need not end (a zero step with a target below the sum repeats for ever), so its result
  is an option: \<open>None\<close> is the loop that never returns.
\<close>

partial_function (option) AddLockedFunds_loop ::
  "TokenAmount \<Rightarrow> VestSpec \<Rightarrow> ChainEpoch \<Rightarrow> ChainEpoch \<Rightarrow> TokenAmount \<Rightarrow> TokenAmount Array
     \<Rightarrow> (fault + TokenAmount Array) option" where
  "AddLockedFunds_loop vestingSum spec vestBegin e vestedSoFar vestingFunds =
     (if vestedSoFar < vestingSum
      then (case AddLockedFunds_step vestingSum spec vestBegin e vestedSoFar vestingFunds of
              Inl err \<Rightarrow> Some (Inl err)
            | Inr (targetVest, vestingFunds') \<Rightarrow>
                AddLockedFunds_loop vestingSum spec vestBegin (e + StepDuration spec)
                  targetVest vestingFunds')
      else Some (Inr vestingFunds))"

declare AddLockedFunds_loop.simps [code]

definition AddLockedFunds ::
  "MinerState \<Rightarrow> ChainEpoch \<Rightarrow> TokenAmount \<Rightarrow> VestSpec \<Rightarrow> (fault + MinerState) option" where
  "AddLockedFunds st currEpoch vestingSum spec =
     (if vestingSum < 0 then Some (Inl AssertionFailed)
      else
        let vestBegin = currEpoch + InitialDelay spec
        in case AddLockedFunds_loop vestingSum spec vestBegin (vestBegin + StepDuration spec) 0
                  (VestingFunds st) of
             None \<Rightarrow> None
           | Some (Inl err) \<Rightarrow> Some (Inl err)
           | Some (Inr vestingFunds) \<Rightarrow>
               Some (Inr (st\<lparr>VestingFunds := vestingFunds,
                              LockedFunds := LockedFunds st + vestingSum\<rparr>)))"

text \<open>
  The \<^verbatim>\<open>ForEach\<close> of \<^verbatim>\<open>UnlockUnvestedFunds\<close> over the entries in ascending order. The
  callback receives the key as \<^verbatim>\<open>int64\<close>, compares it signed with the current epoch, and
  stops the iteration once the target is reached.
\<close>

fun UnlockUnvestedFunds_iter ::
  "ChainEpoch \<Rightarrow> TokenAmount \<Rightarrow> TokenAmount Array \<Rightarrow> TokenAmount \<Rightarrow> 64 word list
     \<Rightarrow> TokenAmount Array \<Rightarrow> TokenAmount \<times> 64 word list \<times> TokenAmount Array" where
  "UnlockUnvestedFunds_iter currEpoch target [] amountUnlocked toDelete vestingFunds =
     (amountUnlocked, toDelete, vestingFunds)"
| "UnlockUnvestedFunds_iter currEpoch target ((k, lockedEntry) # rest) amountUnlocked toDelete
     vestingFunds =
     (if amountUnlocked < target then
        if \<not> i64_less k currEpoch then
          let unlockAmount = min (target - amountUnlocked) lockedEntry;
              amountUnlocked' = amountUnlocked + unlockAmount;
              lockedEntry' = lockedEntry - unlockAmount
          in if lockedEntry' = 0
             then UnlockUnvestedFunds_iter currEpoch target rest amountUnlocked'
                    (toDelete @ [k]) vestingFunds
             else UnlockUnvestedFunds_iter currEpoch target rest amountUnlocked' toDelete
                    (Array_Set k lockedEntry' vestingFunds)
        else UnlockUnvestedFunds_iter currEpoch target rest amountUnlocked toDelete vestingFunds
      else (amountUnlocked, toDelete, vestingFunds))"

definition UnlockUnvestedFunds ::
  "MinerState \<Rightarrow> ChainEpoch \<Rightarrow> TokenAmount \<Rightarrow> fault + (MinerState \<times> TokenAmount)" where
  "UnlockUnvestedFunds st currEpoch target =
     (case UnlockUnvestedFunds_iter currEpoch target (VestingFunds st) 0 [] (VestingFunds st) of
        (amountUnlocked, toDelete, vestingFunds) \<Rightarrow>
          let vestingFunds' = deleteMany vestingFunds toDelete;
              lockedFunds = LockedFunds st - amountUnlocked
          in if lockedFunds < 0 then Inl AssertionFailed
             else Inr (st\<lparr>LockedFunds := lockedFunds, VestingFunds := vestingFunds'\<rparr>,
                       amountUnlocked))"

fun UnlockVestedFunds_iter ::
  "ChainEpoch \<Rightarrow> TokenAmount Array \<Rightarrow> TokenAmount \<Rightarrow> 64 word list
     \<Rightarrow> TokenAmount \<times> 64 word list" where
  "UnlockVestedFunds_iter currEpoch [] amountUnlocked toDelete = (amountUnlocked, toDelete)"
| "UnlockVestedFunds_iter currEpoch ((k, lockedEntry) # rest) amountUnlocked toDelete =
     (if i64_less k currEpoch
      then UnlockVestedFunds_iter currEpoch rest (amountUnlocked + lockedEntry) (toDelete @ [k])
      else (amountUnlocked, toDelete))"

definition UnlockVestedFunds ::
  "MinerState \<Rightarrow> ChainEpoch \<Rightarrow> fault + (MinerState \<times> TokenAmount)" where
  "UnlockVestedFunds st currEpoch =
     (case UnlockVestedFunds_iter currEpoch (VestingFunds st) 0 [] of
        (amountUnlocked, toDelete) \<Rightarrow>
          let vestingFunds = deleteMany (VestingFunds st) toDelete;
              lockedFunds = LockedFunds st - amountUnlocked
          in if lockedFunds < 0 then Inl AssertionFailed
             else Inr (st\<lparr>LockedFunds := lockedFunds, VestingFunds := vestingFunds\<rparr>,
                       amountUnlocked))"

text \<open>The invariants of the miner state that the specification lists.\<close>

definition vesting_inv :: "MinerState \<Rightarrow> bool" where
  "vesting_inv st = (sum_list (map snd (VestingFunds st)) = LockedFunds st)"

definition faults_inv :: "MinerState \<Rightarrow> bool" where
  "faults_inv st = (Faults st = \<Union> (snd ` set (FaultEpochs st)))"

text \<open>The vesting schedule of the specification's vesting scenario.\<close>

definition scenario_spec :: VestSpec where
  "scenario_spec = \<lparr>InitialDelay = 0, VestPeriod = 100, StepDuration = 10, Quantization = 10\<rparr>"

text \<open>The initial miner state of \<^verbatim>\<open>ConstructState\<close>, on the modelled fields.\<close>

definition ConstructState :: MinerState where
  "ConstructState = \<lparr>PreCommitDeposits = 0, LockedFunds = 0, VestingFunds = [], NewSectors = {},
     SectorExpirations = [], Faults = {}, FaultEpochs = [], Recoveries = {},
     PostSubmissions = {}\<rparr>"

text \<open>Proof vocabulary: the sum of the entries of a table whose keys lie outside a set.\<close>

definition Msum :: "64 word set \<Rightarrow> int Array \<Rightarrow> int" where
  "Msum D arr = sum_list (map snd (filter (\<lambda>kv. fst kv \<notin> D) arr))"

text \<open>
  Proof vocabulary: what a returning run of the vesting loop guarantees, for a non-negative
  sum and period, about the table it returns.
\<close>

definition loop_post ::
  "TokenAmount \<Rightarrow> VestSpec \<Rightarrow> ChainEpoch \<Rightarrow> ChainEpoch \<Rightarrow> TokenAmount \<Rightarrow> TokenAmount Array
     \<Rightarrow> fault + TokenAmount Array \<Rightarrow> bool" where
  "loop_post vs spec vb e vested vf r =
     (0 \<le> vs \<longrightarrow> 0 \<le> sint (VestPeriod spec) \<longrightarrow> vested \<le> vs \<longrightarrow> Array_wf vf \<longrightarrow>
      (\<forall>vf'. r = Inr vf' \<longrightarrow>
         Array_wf vf' \<and> sum_list (map snd vf') = sum_list (map snd vf) + (vs - vested)))"

text \<open>Proof vocabulary: the union of the bitfields of a table.\<close>

definition Uvals :: "BitField Array \<Rightarrow> BitField" where
  "Uvals arr = \<Union> (snd ` set arr)"

section \<open>Storage market actor (market_actor.go)\<close>

subsection \<open>Data model and runtime\<close>

type_synonym Address = nat

datatype exitcode = Ok | ErrIllegalArgument | ErrIllegalState | ErrNotFound | ErrForbidden
  | ErrInsufficientFunds | ErrPlaceholder | SysErrorIllegalArgument

datatype CodeID = AccountActorCodeID | MultisigActorCodeID | StorageMinerActorCodeID
  | OtherActorCodeID

text \<open>
  Modelled from the spec: \<^verbatim>\<open>DealProposal\<close>, \<^verbatim>\<open>DealState\<close> and the market \<^verbatim>\<open>State\<close>
  (deal.go, market_state.go) are not among the sources. The spec lists their fields (the
  label of a proposal is left out: no operation reads it); \<^verbatim>\<open>-1\<close> is the undefined epoch.
  The deal arrays and balance tables are partial maps, the set-multimap maps an address to
  a set of deal ids.
\<close>

record DealProposal =
  PieceCID :: nat
  PieceSize :: "64 word"
  VerifiedDeal :: bool
  Client :: Address
  Provider :: Address
  StartEpoch :: ChainEpoch
  EndEpoch :: ChainEpoch
  StoragePricePerEpoch :: TokenAmount
  ProviderCollateral :: TokenAmount
  ClientCollateral :: TokenAmount

record ClientDealProposal =
  Proposal :: DealProposal
  ClientSignature :: nat

record DealState =
  SectorStartEpoch :: ChainEpoch
  LastUpdatedEpoch :: ChainEpoch
  SlashEpoch :: ChainEpoch

type_synonym BalanceTable = "Address \<rightharpoonup> TokenAmount"

record MarketState =
  Proposals :: "DealID \<rightharpoonup> DealProposal"
  States :: "DealID \<rightharpoonup> DealState"
  EscrowTable :: BalanceTable
  LockedTable :: BalanceTable
  NextID :: DealID
  DealIDsByParty :: "Address \<rightharpoonup> DealID set"

definition epochUndefined :: ChainEpoch where
  "epochUndefined = - 1"

text \<open>The messages an invocation sends to other actors.\<close>

datatype Message =
    Transfer Address TokenAmount
  | UseBytes Address int
  | RestoreBytes Address int

definition BurntFundsActorAddr :: Address where
  "BurntFundsActorAddr = 99"

text \<open>
  Modelled from the spec: the runtime adapter (\<^verbatim>\<open>actors/runtime\<close>) and the market policy
  functions are not among the sources. What a method reads from them is a field of this
  record: the epoch, the immediate caller and its code, the value received, address
  resolution, code lookup, the miner's control addresses \<open>(owner, worker)\<close> as
  \<^verbatim>\<open>RequestMinerControlAddrs\<close> returns them, the exit code of each outbound message, the
  verdict of \<^verbatim>\<open>dealProposalIsInternallyValid\<close>, and the policy bounds.
\<close>

record Runtime =
  CurrEpoch :: ChainEpoch
  Caller :: Address
  CallerCode :: CodeID
  ValueReceived :: TokenAmount
  ResolveAddress :: "Address \<Rightarrow> Address option"
  GetActorCodeCID :: "Address \<Rightarrow> CodeID option"
  RequestMinerControlAddrs :: "Address \<Rightarrow> exitcode + (Address \<times> Address)"
  SendCode :: "Message \<Rightarrow> exitcode"
  dealProposalIsInternallyValid :: "ClientDealProposal \<Rightarrow> bool"
  dealDurationBounds :: "64 word \<Rightarrow> ChainEpoch \<times> ChainEpoch"
  dealPricePerEpochBounds :: "64 word \<Rightarrow> ChainEpoch \<Rightarrow> TokenAmount \<times> TokenAmount"
  dealProviderCollateralBounds :: "64 word \<Rightarrow> ChainEpoch \<Rightarrow> TokenAmount \<times> TokenAmount"
  dealClientCollateralBounds :: "64 word \<Rightarrow> ChainEpoch \<Rightarrow> TokenAmount \<times> TokenAmount"

definition CallerTypesSignable :: "CodeID set" where
  "CallerTypesSignable = {AccountActorCodeID, MultisigActorCodeID}"

text \<open>
  Modelled from the spec: an abort inside a method ends the message with its exit code,
  the state rolled back and the sends not yet issued discarded (spec, error propagation).
  A method is a function to \<open>exitcode + result\<close>; \<open>invoke\<close> is what the chain keeps of it:
  the exit code, the state after the message and the messages sent.
\<close>

definition invoke ::
  "(MarketState \<Rightarrow> exitcode + (MarketState \<times> 'r \<times> Message list)) \<Rightarrow> MarketState
     \<Rightarrow> exitcode \<times> MarketState \<times> 'r option \<times> Message list" where
  "invoke method st =
     (case method st of
        Inl code \<Rightarrow> (code, st, None, [])
      | Inr (st', ret, msgs) \<Rightarrow> (Ok, st', Some ret, msgs))"

subsection \<open>Market state helpers, modelled from the spec\<close>

text \<open>
  Modelled from the spec: market_state.go and \<^verbatim>\<open>adt.BalanceTable\<close> are not among the
  sources. \<^verbatim>\<open>Duration\<close> is \<^verbatim>\<open>EndEpoch - StartEpoch\<close>; the client's balance requirement is
  \<^verbatim>\<open>ClientCollateral + price * duration\<close>, the provider's is \<^verbatim>\<open>ProviderCollateral\<close>.
  Adding to a balance creates the row when it is absent.
\<close>

definition Duration :: "DealProposal \<Rightarrow> ChainEpoch" where
  "Duration p = EndEpoch p - StartEpoch p"

definition ClientBalanceRequirement :: "DealProposal \<Rightarrow> TokenAmount" where
  "ClientBalanceRequirement p = ClientCollateral p + StoragePricePerEpoch p * sint (Duration p)"

definition ProviderBalanceRequirement :: "DealProposal \<Rightarrow> TokenAmount" where
  "ProviderBalanceRequirement p = ProviderCollateral p"

definition balance :: "BalanceTable \<Rightarrow> Address \<Rightarrow> TokenAmount" where
  "balance t a = (case t a of None \<Rightarrow> 0 | Some b \<Rightarrow> b)"

definition BalanceTable_Add :: "BalanceTable \<Rightarrow> Address \<Rightarrow> TokenAmount \<Rightarrow> BalanceTable" where
  "BalanceTable_Add t a x = t(a \<mapsto> balance t a + x)"

text \<open>
  \<^verbatim>\<open>SubtractWithMinimum(addr, requested, floor)\<close>: extract
  \<^verbatim>\<open>min(Balance[addr] - floor, requested)\<close>, clamped at 0; it fails (\<open>None\<close>) if
  \<^verbatim>\<open>floor < 0\<close> or \<^verbatim>\<open>Balance[addr] < floor\<close>, and on a missing row.
\<close>

definition SubtractWithMinimum ::
  "BalanceTable \<Rightarrow> Address \<Rightarrow> TokenAmount \<Rightarrow> TokenAmount
     \<Rightarrow> (BalanceTable \<times> TokenAmount) option" where
  "SubtractWithMinimum t a requested minimum =
     (case t a of
        None \<Rightarrow> None
      | Some bal \<Rightarrow>
          if minimum < 0 \<or> bal < minimum then None
          else let extracted = max 0 (min (bal - minimum) requested)
               in Some (t(a \<mapsto> bal - extracted), extracted))"

definition AddEscrowBalance :: "MarketState \<Rightarrow> Address \<Rightarrow> TokenAmount \<Rightarrow> MarketState" where
  "AddEscrowBalance st a amount = st\<lparr>EscrowTable := BalanceTable_Add (EscrowTable st) a amount\<rparr>"

definition AddLockedBalance :: "MarketState \<Rightarrow> Address \<Rightarrow> TokenAmount \<Rightarrow> MarketState" where
  "AddLockedBalance st a amount = st\<lparr>LockedTable := BalanceTable_Add (LockedTable st) a amount\<rparr>"

definition GetLockedBalance :: "MarketState \<Rightarrow> Address \<Rightarrow> exitcode + TokenAmount" where
  "GetLockedBalance st a =
     (case LockedTable st a of None \<Rightarrow> Inl ErrIllegalState | Some b \<Rightarrow> Inr b)"

definition unlockBalance :: "MarketState \<Rightarrow> Address \<Rightarrow> TokenAmount \<Rightarrow> MarketState" where
  "unlockBalance st a amount = st\<lparr>LockedTable := BalanceTable_Add (LockedTable st) a (- amount)\<rparr>"

definition slashBalance :: "MarketState \<Rightarrow> Address \<Rightarrow> TokenAmount \<Rightarrow> MarketState" where
  "slashBalance st a amount = st\<lparr>EscrowTable := BalanceTable_Add (EscrowTable st) a (- amount)\<rparr>"

text \<open>Payment from the client's locked funds to the provider's unlocked funds.\<close>

definition transferBalance ::
  "MarketState \<Rightarrow> Address \<Rightarrow> Address \<Rightarrow> TokenAmount \<Rightarrow> MarketState" where
  "transferBalance st fromAddr toAddr amount =
     (let st1 = st\<lparr>LockedTable := BalanceTable_Add (LockedTable st) fromAddr (- amount)\<rparr>;
          st2 = st1\<lparr>EscrowTable := BalanceTable_Add (EscrowTable st1) fromAddr (- amount)\<rparr>
      in st2\<lparr>EscrowTable := BalanceTable_Add (EscrowTable st2) toAddr amount\<rparr>)"

text \<open>Locking aborts when the amount exceeds the available (unlocked) escrow.\<close>

definition lockBalanceOrAbort ::
  "MarketState \<Rightarrow> Address \<Rightarrow> TokenAmount \<Rightarrow> exitcode + MarketState" where
  "lockBalanceOrAbort st a amount =
     (if balance (EscrowTable st) a - balance (LockedTable st) a < amount
      then Inl ErrInsufficientFunds
      else Inr (st\<lparr>LockedTable := BalanceTable_Add (LockedTable st) a amount\<rparr>))"

definition generateStorageDealID :: "MarketState \<Rightarrow> MarketState \<times> DealID" where
  "generateStorageDealID st = (st\<lparr>NextID := NextID st + 1\<rparr>, NextID st)"

definition SetMultimap_Put ::
  "(Address \<rightharpoonup> DealID set) \<Rightarrow> Address \<Rightarrow> DealID \<Rightarrow> (Address \<rightharpoonup> DealID set)" where
  "SetMultimap_Put m k v = m(k \<mapsto> insert v (case m k of None \<Rightarrow> {} | Some s \<Rightarrow> s))"

definition SetMultimap_Remove ::
  "(Address \<rightharpoonup> DealID set) \<Rightarrow> Address \<Rightarrow> DealID \<Rightarrow> (Address \<rightharpoonup> DealID set)" where
  "SetMultimap_Remove m k v = (case m k of None \<Rightarrow> m | Some s \<Rightarrow> m(k \<mapsto> s - {v}))"

text \<open>A missing proposal aborts; a deal with no state row is not yet activated.\<close>

definition mustGetDeal :: "MarketState \<Rightarrow> DealID \<Rightarrow> exitcode + DealProposal" where
  "mustGetDeal st dealID =
     (case Proposals st dealID of None \<Rightarrow> Inl ErrIllegalState | Some p \<Rightarrow> Inr p)"

definition DealStates_Get :: "(DealID \<rightharpoonup> DealState) \<Rightarrow> DealID \<Rightarrow> DealState" where
  "DealStates_Get states dealID =
     (case states dealID of
        None \<Rightarrow> \<lparr>SectorStartEpoch = epochUndefined, LastUpdatedEpoch = epochUndefined,
                  SlashEpoch = epochUndefined\<rparr>
      | Some s \<Rightarrow> s)"

definition mustGetDealState :: "MarketState \<Rightarrow> DealID \<Rightarrow> DealState" where
  "mustGetDealState st dealID = DealStates_Get (States st) dealID"

definition deleteDeal :: "MarketState \<Rightarrow> DealID \<Rightarrow> DealProposal \<Rightarrow> MarketState" where
  "deleteDeal st dealID deal =
     st\<lparr>Proposals := (Proposals st)(dealID := None),
        States := (States st)(dealID := None),
        DealIDsByParty :=
          SetMultimap_Remove (SetMultimap_Remove (DealIDsByParty st) (Client deal) dealID)
            (Provider deal) dealID\<rparr>"

text \<open>
  Init timeout (spec 4.2.3, case 1): unlock the client's balance requirement, unlock the
  provider collateral, slash the provider collateral, delete the deal from \<^verbatim>\<open>Proposals\<close>,
  \<^verbatim>\<open>States\<close> and both entries of \<^verbatim>\<open>DealIdsByParty\<close>; the slashed amount is the provider
  collateral.
\<close>

definition processDealInitTimedOut ::
  "MarketState \<Rightarrow> DealID \<Rightarrow> exitcode + (MarketState \<times> TokenAmount)" where
  "processDealInitTimedOut st dealID =
     (case mustGetDeal st dealID of
        Inl e \<Rightarrow> Inl e
      | Inr deal \<Rightarrow>
          let st1 = unlockBalance st (Client deal) (ClientBalanceRequirement deal);
              st2 = unlockBalance st1 (Provider deal) (ProviderCollateral deal);
              st3 = slashBalance st2 (Provider deal) (ProviderCollateral deal)
          in Inr (deleteDeal st3 dealID deal, ProviderCollateral deal))"

text \<open>
  Terminated deal (spec 4.2.3, case 2, \<^verbatim>\<open>SlashEpoch \<ge> 0\<close>): the client pays the price for
  the epochs \<^verbatim>\<open>[elapsedStart, SlashEpoch)\<close>, the rest of the client's locked funds and its
  collateral are unlocked, the provider collateral is slashed, the deal is deleted.
\<close>

definition processDealSlashed ::
  "MarketState \<Rightarrow> DealID \<Rightarrow> DealProposal \<Rightarrow> DealState \<Rightarrow> ChainEpoch
     \<Rightarrow> MarketState \<times> TokenAmount" where
  "processDealSlashed st dealID deal state elapsedStart =
     (let payment = StoragePricePerEpoch deal * (sint (SlashEpoch state) - sint elapsedStart);
          remaining = StoragePricePerEpoch deal * (sint (EndEpoch deal) - sint (SlashEpoch state));
          st1 = transferBalance st (Client deal) (Provider deal) payment;
          st2 = unlockBalance st1 (Client deal) (remaining + ClientCollateral deal);
          st3 = unlockBalance st2 (Provider deal) (ProviderCollateral deal);
          st4 = slashBalance st3 (Provider deal) (ProviderCollateral deal)
      in (deleteDeal st4 dealID deal, ProviderCollateral deal))"

text \<open>The deferred update of one deal at epoch \<open>now\<close> (spec 4.2.3).\<close>

definition updatePendingDealState ::
  "MarketState \<Rightarrow> DealID \<Rightarrow> ChainEpoch \<Rightarrow> exitcode + (MarketState \<times> TokenAmount)" where
  "updatePendingDealState st dealID now =
     (case mustGetDeal st dealID of
        Inl e \<Rightarrow> Inl e
      | Inr deal \<Rightarrow>
          let state = mustGetDealState st dealID
          in if sint (SectorStartEpoch state) < 0 then
               (if i64_less (StartEpoch deal) now then processDealInitTimedOut st dealID
                else Inr (st, 0))
             else
               let elapsedStart =
                     (if sint (LastUpdatedEpoch state) < 0 then SectorStartEpoch state
                      else if i64_less (SectorStartEpoch state) (LastUpdatedEpoch state)
                           then LastUpdatedEpoch state else SectorStartEpoch state)
               in if 0 \<le> sint (SlashEpoch state)
                  then Inr (processDealSlashed st dealID deal state elapsedStart)
                  else
                    let paymentEnd = (if i64_less now (EndEpoch deal) then now else EndEpoch deal);
                        payment = StoragePricePerEpoch deal * (sint paymentEnd - sint elapsedStart);
                        st1 = transferBalance st (Client deal) (Provider deal) payment;
                        st2 = st1\<lparr>States := (States st1)(dealID \<mapsto> state\<lparr>LastUpdatedEpoch := now\<rparr>)\<rparr>
                    in if paymentEnd = EndEpoch deal
                       then
                         let st3 = unlockBalance st2 (Client deal) (ClientCollateral deal);
                             st4 = unlockBalance st3 (Provider deal) (ProviderCollateral deal)
                         in Inr (deleteDeal st4 dealID deal, 0)
                       else Inr (st2, 0))"

fun updatePendingDealStates ::
  "MarketState \<Rightarrow> DealID list \<Rightarrow> ChainEpoch \<Rightarrow> exitcode + (MarketState \<times> TokenAmount)" where
  "updatePendingDealStates st [] now = Inr (st, 0)"
| "updatePendingDealStates st (dealID # dealIDs) now =
     (case updatePendingDealState st dealID now of
        Inl e \<Rightarrow> Inl e
      | Inr (st1, slashed) \<Rightarrow>
          (case updatePendingDealStates st1 dealIDs now of
             Inl e \<Rightarrow> Inl e
           | Inr (st2, slashed') \<Rightarrow> Inr (st2, slashed + slashed')))"

text \<open>
  The per-party helper iterates a snapshot of \<^verbatim>\<open>DealIdsByParty[addr]\<close>, in ascending order
  of deal id, and applies the update to each deal at the current epoch.
\<close>

definition updatePendingDealStatesForParty ::
  "Runtime \<Rightarrow> MarketState \<Rightarrow> Address \<Rightarrow> exitcode + (MarketState \<times> TokenAmount)" where
  "updatePendingDealStatesForParty rt st addr =
     (case DealIDsByParty st addr of
        None \<Rightarrow> Inr (st, 0)
      | Some dealIDs \<Rightarrow> updatePendingDealStates st (sorted_list_of_set dealIDs) (CurrEpoch rt))"

subsection \<open>Checks and address resolution (market_actor.go)\<close>

text \<open>
  \<^verbatim>\<open>rt.Abortf(code, ...)\<close> ends the method with \<open>Inl code\<close>. A failed caller validation
  aborts with \<^verbatim>\<open>ErrForbidden\<close> (spec, error taxonomy), and \<^verbatim>\<open>RequireSuccess\<close> re-aborts with
  the exit code of the failed send.
\<close>

definition validateDealCanActivate ::
  "Runtime \<Rightarrow> Address \<Rightarrow> ChainEpoch \<Rightarrow> DealState \<Rightarrow> DealProposal \<Rightarrow> exitcode + unit" where
  "validateDealCanActivate rt minerAddr sectorExpiration deal proposal =
     (if Provider proposal \<noteq> minerAddr then Inl ErrIllegalArgument
      else if SectorStartEpoch deal \<noteq> epochUndefined then Inl ErrIllegalArgument
      else if i64_less (StartEpoch proposal) (CurrEpoch rt) then Inl ErrIllegalArgument
      else if i64_less sectorExpiration (EndEpoch proposal) then Inl ErrIllegalArgument
      else Inr ())"

definition validateDeal :: "Runtime \<Rightarrow> ClientDealProposal \<Rightarrow> exitcode + unit" where
  "validateDeal rt deal =
     (if \<not> dealProposalIsInternallyValid rt deal then Inl ErrIllegalArgument
      else
        let proposal = Proposal deal
        in if i64_less (StartEpoch proposal) (CurrEpoch rt) then Inl ErrIllegalArgument
           else
             let (minDuration, maxDuration) = dealDurationBounds rt (PieceSize proposal)
             in if i64_less (Duration proposal) minDuration \<or> i64_less maxDuration (Duration proposal)
                then Inl ErrIllegalArgument
                else
                  let (minPrice, maxPrice) =
                        dealPricePerEpochBounds rt (PieceSize proposal) (Duration proposal)
                  in if StoragePricePerEpoch proposal < minPrice \<or> maxPrice < StoragePricePerEpoch proposal
                     then Inl ErrIllegalArgument
                     else
                       let (minProviderCollateral, maxProviderCollateral) =
                             dealProviderCollateralBounds rt (PieceSize proposal) (Duration proposal)
                       in if ProviderCollateral proposal < minProviderCollateral
                             \<or> maxProviderCollateral < ProviderCollateral proposal
                          then Inl ErrIllegalArgument
                          else
                            let (minClientCollateral, maxClientCollateral) =
                                  dealClientCollateralBounds rt (PieceSize proposal) (Duration proposal)
                            in if ClientCollateral proposal < minClientCollateral
                                  \<or> maxClientCollateral < ClientCollateral proposal
                               then Inl ErrIllegalArgument
                               else Inr ())"

definition escrowAddress :: "Runtime \<Rightarrow> Address \<Rightarrow> exitcode + (Address \<times> Address)" where
  "escrowAddress rt addr =
     (case ResolveAddress rt addr of
        None \<Rightarrow> Inl ErrIllegalArgument
      | Some nominal \<Rightarrow>
          (case GetActorCodeCID rt nominal of
             None \<Rightarrow> Inl ErrIllegalArgument
           | Some codeID \<Rightarrow>
               if codeID = StorageMinerActorCodeID then
                 (case RequestMinerControlAddrs rt nominal of
                    Inl e \<Rightarrow> Inl e
                  | Inr (ownerAddr, workerAddr) \<Rightarrow>
                      if Caller rt = ownerAddr \<or> Caller rt = workerAddr
                      then Inr (nominal, ownerAddr)
                      else Inl ErrForbidden)
               else if CallerCode rt \<in> CallerTypesSignable then Inr (nominal, nominal)
               else Inl ErrForbidden))"

subsection \<open>Actor methods (market_actor.go)\<close>

text \<open>
  A method takes the runtime, its parameters and the state, and returns the abort code or
  the new state, the return value and the messages sent, in the order of sending.
\<close>

definition WithdrawBalance ::
  "Runtime \<Rightarrow> Address \<Rightarrow> TokenAmount \<Rightarrow> MarketState
     \<Rightarrow> exitcode + (MarketState \<times> unit \<times> Message list)" where
  "WithdrawBalance rt providerOrClientAddress amount st =
     (if amount < 0 then Inl ErrIllegalArgument
      else
        case escrowAddress rt providerOrClientAddress of
          Inl e \<Rightarrow> Inl e
        | Inr (nominal, recipient) \<Rightarrow>
            (case updatePendingDealStatesForParty rt st nominal of
               Inl e \<Rightarrow> Inl e
             | Inr (st1, slashed) \<Rightarrow>
                 let amountSlashedTotal = 0 + slashed
                 in (case GetLockedBalance st1 nominal of
                       Inl e \<Rightarrow> Inl e
                     | Inr minBalance \<Rightarrow>
                         (case SubtractWithMinimum (EscrowTable st1) nominal amount minBalance of
                            None \<Rightarrow> Inl ErrIllegalState
                          | Some (et, amountExtracted) \<Rightarrow>
                              let st2 = st1\<lparr>EscrowTable := et\<rparr>;
                                  burn = Transfer BurntFundsActorAddr amountSlashedTotal;
                                  pay = Transfer recipient amountExtracted
                              in if 0 < amountSlashedTotal \<and> SendCode rt burn \<noteq> Ok
                                 then Inl (SendCode rt burn)
                                 else if SendCode rt pay \<noteq> Ok then Inl (SendCode rt pay)
                                 else Inr (st2, (),
                                        (if 0 < amountSlashedTotal then [burn] else []) @ [pay])))))"

definition AddBalance ::
  "Runtime \<Rightarrow> Address \<Rightarrow> MarketState \<Rightarrow> exitcode + (MarketState \<times> unit \<times> Message list)" where
  "AddBalance rt providerOrClientAddress st =
     (case escrowAddress rt providerOrClientAddress of
        Inl e \<Rightarrow> Inl e
      | Inr (nominal, recipient) \<Rightarrow>
          let msgValue = ValueReceived rt;
              st1 = AddEscrowBalance st nominal msgValue;
              st2 = AddLockedBalance st1 nominal 0
          in Inr (st2, (), []))"

text \<open>The first loop of \<^verbatim>\<open>PublishStorageDeals\<close>: one \<^verbatim>\<open>UseBytes\<close> message per verified deal.\<close>

fun PublishStorageDeals_useBytes ::
  "Runtime \<Rightarrow> ClientDealProposal list \<Rightarrow> exitcode + Message list" where
  "PublishStorageDeals_useBytes rt [] = Inr []"
| "PublishStorageDeals_useBytes rt (deal # deals) =
     (if VerifiedDeal (Proposal deal) then
        (let m = UseBytes (Client (Proposal deal)) (uint (PieceSize (Proposal deal)))
         in if SendCode rt m \<noteq> Ok then Inl (SendCode rt m)
            else (case PublishStorageDeals_useBytes rt deals of
                    Inl e \<Rightarrow> Inl e
                  | Inr ms \<Rightarrow> Inr (m # ms)))
      else PublishStorageDeals_useBytes rt deals)"

text \<open>
  The loop inside the transaction. \<open>proposals\<close> and \<open>dbp\<close> are the local copies loaded from
  the state before the loop; the state itself is threaded through the deferred updates,
  the locking and the id generation.
\<close>

fun PublishStorageDeals_loop ::
  "Runtime \<Rightarrow> Address \<Rightarrow> Address \<Rightarrow> ClientDealProposal list \<Rightarrow> MarketState
     \<Rightarrow> (DealID \<rightharpoonup> DealProposal) \<Rightarrow> (Address \<rightharpoonup> DealID set) \<Rightarrow> TokenAmount \<Rightarrow> DealID list
     \<Rightarrow> exitcode + (MarketState \<times> (DealID \<rightharpoonup> DealProposal) \<times> (Address \<rightharpoonup> DealID set)
           \<times> TokenAmount \<times> DealID list)" where
  "PublishStorageDeals_loop rt provider providerRaw [] st proposals dbp amountSlashedTotal newDealIds =
     Inr (st, proposals, dbp, amountSlashedTotal, newDealIds)"
| "PublishStorageDeals_loop rt provider providerRaw (deal # deals) st proposals dbp
       amountSlashedTotal newDealIds =
     (case validateDeal rt deal of
        Inl e \<Rightarrow> Inl e
      | Inr u \<Rightarrow>
          if Provider (Proposal deal) \<noteq> provider \<and> Provider (Proposal deal) \<noteq> providerRaw
          then Inl ErrIllegalArgument
          else
            (case ResolveAddress rt (Client (Proposal deal)) of
               None \<Rightarrow> Inl ErrNotFound
             | Some client \<Rightarrow>
                 let proposal = (Proposal deal)\<lparr>Provider := provider, Client := client\<rparr>
                 in (case updatePendingDealStatesForParty rt st client of
                       Inl e \<Rightarrow> Inl e
                     | Inr (st1, slashed1) \<Rightarrow>
                         (case updatePendingDealStatesForParty rt st1 provider of
                            Inl e \<Rightarrow> Inl e
                          | Inr (st2, slashed2) \<Rightarrow>
                              (case lockBalanceOrAbort st2 client (ClientBalanceRequirement proposal) of
                                 Inl e \<Rightarrow> Inl e
                               | Inr st3 \<Rightarrow>
                                   (case lockBalanceOrAbort st3 provider
                                           (ProviderBalanceRequirement proposal) of
                                      Inl e \<Rightarrow> Inl e
                                    | Inr st4 \<Rightarrow>
                                        let (st5, id) = generateStorageDealID st4
                                        in PublishStorageDeals_loop rt provider providerRaw deals st5
                                             (proposals(id \<mapsto> proposal))
                                             (SetMultimap_Put (SetMultimap_Put dbp client id) provider id)
                                             (amountSlashedTotal + slashed1 + slashed2)
                                             (newDealIds @ [id])))))))"

definition PublishStorageDeals ::
  "Runtime \<Rightarrow> ClientDealProposal list \<Rightarrow> MarketState
     \<Rightarrow> exitcode + (MarketState \<times> DealID list \<times> Message list)" where
  "PublishStorageDeals rt deals st =
     (if CallerCode rt \<notin> CallerTypesSignable then Inl ErrForbidden
      else if deals = [] then Inl ErrIllegalArgument
      else
        let providerRaw = Provider (Proposal (hd deals))
        in (case ResolveAddress rt providerRaw of
              None \<Rightarrow> Inl ErrNotFound
            | Some provider \<Rightarrow>
                (case RequestMinerControlAddrs rt provider of
                   Inl e \<Rightarrow> Inl e
                 | Inr (ownerAddr, worker) \<Rightarrow>
                     if worker \<noteq> Caller rt then Inl ErrForbidden
                     else
                       (case PublishStorageDeals_useBytes rt deals of
                          Inl e \<Rightarrow> Inl e
                        | Inr useBytes \<Rightarrow>
                            (case PublishStorageDeals_loop rt provider providerRaw deals st
                                    (Proposals st) (DealIDsByParty st) 0 [] of
                               Inl e \<Rightarrow> Inl e
                             | Inr (st1, proposals, dbp, amountSlashedTotal, newDealIds) \<Rightarrow>
                                 let st2 = st1\<lparr>Proposals := proposals, DealIDsByParty := dbp\<rparr>;
                                     burn = Transfer BurntFundsActorAddr amountSlashedTotal
                                 in if SendCode rt burn \<noteq> Ok then Inl (SendCode rt burn)
                                    else Inr (st2, newDealIds, useBytes @ [burn]))))))"

text \<open>
  The loop of \<^verbatim>\<open>VerifyDealsOnSectorProveCommit\<close> over the local \<open>states\<close> array and the
  proposals of the state. A missing proposal is the error of \<^verbatim>\<open>proposals.Get\<close>.
\<close>

definition dealSpaceTime :: "DealProposal \<Rightarrow> int" where
  "dealSpaceTime proposal = sint (Duration proposal) * uint (PieceSize proposal)"

fun VerifyDealsOnSectorProveCommit_loop ::
  "Runtime \<Rightarrow> Address \<Rightarrow> ChainEpoch \<Rightarrow> (DealID \<rightharpoonup> DealProposal) \<Rightarrow> DealID list
     \<Rightarrow> (DealID \<rightharpoonup> DealState) \<Rightarrow> int \<Rightarrow> int
     \<Rightarrow> exitcode + ((DealID \<rightharpoonup> DealState) \<times> int \<times> int)" where
  "VerifyDealsOnSectorProveCommit_loop rt minerAddr sectorExpiry proposals [] states
       totalDealSpaceTime totalVerifiedDealSpaceTime =
     Inr (states, totalDealSpaceTime, totalVerifiedDealSpaceTime)"
| "VerifyDealsOnSectorProveCommit_loop rt minerAddr sectorExpiry proposals (dealID # dealIDs) states
       totalDealSpaceTime totalVerifiedDealSpaceTime =
     (let deal = DealStates_Get states dealID
      in case proposals dealID of
           None \<Rightarrow> Inl ErrIllegalState
         | Some proposal \<Rightarrow>
             (case validateDealCanActivate rt minerAddr sectorExpiry deal proposal of
                Inl e \<Rightarrow> Inl e
              | Inr u \<Rightarrow>
                  let states' = states(dealID \<mapsto> deal\<lparr>SectorStartEpoch := CurrEpoch rt\<rparr>)
                  in if VerifiedDeal proposal
                     then VerifyDealsOnSectorProveCommit_loop rt minerAddr sectorExpiry proposals
                            dealIDs states' totalDealSpaceTime
                            (totalVerifiedDealSpaceTime + dealSpaceTime proposal)
                     else VerifyDealsOnSectorProveCommit_loop rt minerAddr sectorExpiry proposals
                            dealIDs states' (totalDealSpaceTime + dealSpaceTime proposal)
                            totalVerifiedDealSpaceTime))"

definition VerifyDealsOnSectorProveCommit ::
  "Runtime \<Rightarrow> DealID list \<Rightarrow> 64 word \<Rightarrow> ChainEpoch \<Rightarrow> MarketState
     \<Rightarrow> exitcode + (MarketState \<times> (int \<times> int) \<times> Message list)" where
  "VerifyDealsOnSectorProveCommit rt dealIDs sectorSize sectorExpiry st =
     (if CallerCode rt \<noteq> StorageMinerActorCodeID then Inl ErrForbidden
      else
        case VerifyDealsOnSectorProveCommit_loop rt (Caller rt) sectorExpiry (Proposals st) dealIDs
               (States st) 0 0 of
          Inl e \<Rightarrow> Inl e
        | Inr (states, totalDealSpaceTime, totalVerifiedDealSpaceTime) \<Rightarrow>
            Inr (st\<lparr>States := states\<rparr>, (totalDealSpaceTime, totalVerifiedDealSpaceTime), []))"

text \<open>
  The transaction of \<^verbatim>\<open>HandleInitTimeoutDeals\<close>. The source calls
  \<^verbatim>\<open>big.Add(slashed, newlySlashed)\<close> and drops the sum: \<open>slashed\<close> stays what it was.
\<close>

fun HandleInitTimeoutDeals_loop ::
  "Runtime \<Rightarrow> DealID list \<Rightarrow> MarketState \<Rightarrow> DealProposal list \<Rightarrow> TokenAmount
     \<Rightarrow> exitcode + (MarketState \<times> DealProposal list \<times> TokenAmount)" where
  "HandleInitTimeoutDeals_loop rt [] st verifiedDeals slashed = Inr (st, verifiedDeals, slashed)"
| "HandleInitTimeoutDeals_loop rt (dealID # dealIDs) st verifiedDeals slashed =
     (case mustGetDeal st dealID of
        Inl e \<Rightarrow> Inl e
      | Inr deal \<Rightarrow>
          let state = mustGetDealState st dealID
          in if SectorStartEpoch state = epochUndefined then
               (if i64_less (StartEpoch deal) (CurrEpoch rt) then
                  (let verifiedDeals' =
                         (if VerifiedDeal deal then verifiedDeals @ [deal] else verifiedDeals)
                   in case processDealInitTimedOut st dealID of
                        Inl e \<Rightarrow> Inl e
                      | Inr (st1, newlySlashed) \<Rightarrow>
                          let dropped = slashed + newlySlashed
                          in HandleInitTimeoutDeals_loop rt dealIDs st1 verifiedDeals' slashed)
                else Inl ErrIllegalArgument)
             else HandleInitTimeoutDeals_loop rt dealIDs st verifiedDeals slashed)"

fun HandleInitTimeoutDeals_restoreBytes ::
  "Runtime \<Rightarrow> DealProposal list \<Rightarrow> exitcode + Message list" where
  "HandleInitTimeoutDeals_restoreBytes rt [] = Inr []"
| "HandleInitTimeoutDeals_restoreBytes rt (deal # deals) =
     (let m = RestoreBytes (Client deal) (uint (PieceSize deal))
      in if SendCode rt m \<noteq> Ok then Inl (SendCode rt m)
         else (case HandleInitTimeoutDeals_restoreBytes rt deals of
                 Inl e \<Rightarrow> Inl e
               | Inr ms \<Rightarrow> Inr (m # ms)))"

text \<open>
  The transaction returns \<^verbatim>\<open>&slashed\<close>; \<open>slashedAmount\<close> is the amount it points to.
\<close>

definition HandleInitTimeoutDeals ::
  "Runtime \<Rightarrow> DealID list \<Rightarrow> MarketState \<Rightarrow> exitcode + (MarketState \<times> unit \<times> Message list)" where
  "HandleInitTimeoutDeals rt deals st =
     (if CallerCode rt \<notin> CallerTypesSignable then Inl ErrForbidden
      else
        case HandleInitTimeoutDeals_loop rt deals st [] 0 of
          Inl e \<Rightarrow> Inl e
        | Inr (st1, verifiedDeals, slashedAmount) \<Rightarrow>
            (case HandleInitTimeoutDeals_restoreBytes rt verifiedDeals of
               Inl e \<Rightarrow> Inl e
             | Inr restore \<Rightarrow>
                 let burn = Transfer BurntFundsActorAddr slashedAmount
                 in if SendCode rt burn \<noteq> Ok then Inl (SendCode rt burn)
                    else Inr (st1, (), restore @ [burn])))"

section \<open>Properties: policy and epoch rounding\<close>

lemma smod_abs_less: "(l::int) \<noteq> 0 \<Longrightarrow> \<bar>k smod l\<bar> < \<bar>l\<bar>"
  by (simp add: signed_modulo_int_def abs_mult abs_sgn_eq)

lemma sint_i64_rem:
  assumes "b \<noteq> 0"
  shows "sint (i64_rem a b) = sint a smod sint b"
proof -
  have nz: "sint b \<noteq> 0" using assms by (simp add: signed_eq_0_iff)
  have "\<bar>sint a smod sint b\<bar> < \<bar>sint b\<bar>" by (rule smod_abs_less [OF nz])
  moreover have "- (2 ^ 63) \<le> sint b" "sint b < 2 ^ 63"
    using sint_ge [of b] sint_lt [of b] by simp_all
  ultimately have "- (2 ^ 63) \<le> sint a smod sint b" "sint a smod sint b < 2 ^ 63"
    by linarith+
  then show ?thesis
    unfolding i64_rem_def by (simp add: sint_sbintrunc' signed_take_bit_int_eq_self)
qed

lemma smod_multiple: "(m * l) smod (l::int) = 0"
  by (simp add: signed_modulo_int_def abs_mult)

lemma trunc_bounds:
  assumes "0 < (l::int)"
  shows "min k 0 \<le> k - k smod l" "k - k smod l \<le> max k 0"
proof -
  have "\<bar>k\<bar> mod l \<le> \<bar>k\<bar>" using assms by (simp add: zmod_le_nonneg_dividend)
  moreover have "0 \<le> \<bar>k\<bar> mod l" using assms by simp
  ultimately show "min k 0 \<le> k - k smod l" "k - k smod l \<le> max k 0"
    using assms by (auto simp: signed_modulo_int_def sgn_if abs_if split: if_splits)
qed

text \<open>
  Claim C9, as stated: for every epoch \<open>e\<close> and every unit \<open>u > 0\<close>,
  \<^verbatim>\<open>quantizeUp(quantizeUp(e, u), u) == quantizeUp(e, u)\<close>. Epochs are \<^verbatim>\<open>int64\<close>: rounding
  the largest epoch up to a multiple of 10 wraps around to a negative epoch that is no
  multiple of 10, and rounding again moves it.
\<close>

theorem quantizeUp_not_idempotent_at_overflow:
  "0 < sint (10 :: 64 word)
   \<and> quantizeUp 9223372036854775807 10 = Inr (- 9223372036854775806)
   \<and> quantizeUp (- 9223372036854775806) 10 = Inr (- 9223372036854775790)
   \<and> quantizeUp (- 9223372036854775806) 10 \<noteq> quantizeUp 9223372036854775807 10"
  by (simp add: quantizeUp_def i64_rem_def signed_modulo_int_def)

text \<open>
  Claim C9, amended: for every epoch \<open>e\<close> and every unit \<open>u > 0\<close> such that the rounded
  value \<^verbatim>\<open>e - e%u + u\<close> does not exceed the largest \<^verbatim>\<open>int64\<close> (when \<open>e\<close> is not already a
  multiple of \<open>u\<close>), rounding the result of \<^verbatim>\<open>quantizeUp(e, u)\<close> again leaves it unchanged.
\<close>

theorem quantizeUp_idempotent_in_range:
  assumes u: "0 < sint u"
    and fits: "i64_rem e u \<noteq> 0 \<longrightarrow> sint e - sint e smod sint u + sint u < 2 ^ 63"
    and q: "quantizeUp e u = Inr q"
  shows "quantizeUp q u = Inr q"
proof (cases "i64_rem e u = 0")
  case True
  with q show ?thesis by (auto simp: quantizeUp_def Let_def split: if_splits)
next
  case False
  have unz: "u \<noteq> 0" using u by auto
  from False q unz have qdef: "q = e - i64_rem e u + u"
    by (auto simp: quantizeUp_def Let_def split: if_splits)
  let ?r = "sint e smod sint u"
  have r: "sint (i64_rem e u) = ?r" by (rule sint_i64_rem [OF unz])
  have lo: "- (2 ^ 63) \<le> sint e" and hi: "sint e < 2 ^ 63"
    using sint_ge [of e] sint_lt [of e] by simp_all
  have b1: "min (sint e) 0 \<le> sint e - ?r" and b2: "sint e - ?r \<le> max (sint e) 0"
    using trunc_bounds [OF u] by blast+
  have "- (2 ^ 63) \<le> sint e - ?r" "sint e - ?r < 2 ^ 63"
    using b1 b2 lo hi by linarith+
  then have s1: "sint (e - i64_rem e u) = sint e - ?r"
    by (simp add: sint_word_ariths r signed_take_bit_int_eq_self)
  have "- (2 ^ 63) \<le> sint e - ?r + sint u" "sint e - ?r + sint u < 2 ^ 63"
    using fits False b1 lo u by linarith+
  moreover have "sint q = signed_take_bit 63 (sint (e - i64_rem e u) + sint u)"
    unfolding qdef by (simp add: sint_word_ariths(1))
  ultimately have s2: "sint q = sint e - ?r + sint u"
    by (simp only: s1 signed_take_bit_int_eq_self)
  have "sint q = (sint e sdiv sint u + 1) * sint u"
    unfolding s2 by (simp add: minus_smod_eq_sdiv_mult algebra_simps)
  then have "sint q smod sint u = 0" by (simp only: smod_multiple)
  then have "i64_rem q u = 0" by (simp add: i64_rem_def)
  with unz show ?thesis by (simp add: quantizeUp_def)
qed

theorem quantizeUp_idempotent_in_range_witness:
  "0 < sint (10 :: 64 word)
   \<and> i64_rem (- 15) (10 :: 64 word) \<noteq> 0
   \<and> sint (- 15 :: 64 word) - sint (- 15 :: 64 word) smod sint (10 :: 64 word)
          + sint (10 :: 64 word) < 2 ^ 63
   \<and> quantizeUp (- 15) 10 = Inr 0
   \<and> quantizeUp 0 10 = Inr 0"
  using quantizeUp_idempotent_in_range [of 10 "- 15" 0]
  by (simp add: quantizeUp_def i64_rem_def signed_modulo_int_def)

lemma big_Div_nonneg: "0 \<le> a \<Longrightarrow> 0 < b \<Longrightarrow> big_Div a b = a div b"
  by (simp add: big_Div_def signed_divide_int_def sgn_if)

lemma floor_min_rat: "\<lfloor>min (x::rat) y\<rfloor> = min \<lfloor>x\<rfloor> \<lfloor>y\<rfloor>"
  by (simp add: min_def floor_mono) (meson floor_mono le_cases order_antisym)

lemma reward_num_denom:
  "(of_int c :: rat) * (1 / 1000) * (101251 / 100000) ^ n =
     of_int (101251 ^ n * 1 * c) / of_int (100000 ^ n * 1000)"
  by (simp add: power_divide mult.commute)

text \<open>
  Claim C8: for every elapsed epoch count \<open>\<ge> 0\<close> and every collateral \<open>\<ge> 0\<close>,
  \<^verbatim>\<open>rewardForConsensusSlashReport(elapsed, collateral)\<close> is
  \<^verbatim>\<open>min(collateral * initialShare * growthRate^elapsed, collateral/2)\<close> computed exactly, with
  \<^verbatim>\<open>initialShare = 1/1000\<close> and \<^verbatim>\<open>growthRate = 101251/100000\<close>: the token amount returned is
  that rational minimum rounded down to an integer, which is what the big-integer quotients
  of the code give without loss of precision. The result never exceeds \<^verbatim>\<open>collateral/2\<close>.
\<close>

theorem reward_refines_spec:
  assumes "0 \<le> sint elapsedEpoch" and "0 \<le> collateral"
  shows "rewardForConsensusSlashReport elapsedEpoch collateral =
           \<lfloor>reward_spec (nat (sint elapsedEpoch)) collateral\<rfloor>
         \<and> rewardForConsensusSlashReport elapsedEpoch collateral \<le> collateral div 2
         \<and> (of_int (rewardForConsensusSlashReport elapsedEpoch collateral) :: rat)
              \<le> of_int collateral / 2"
proof -
  let ?n = "nat (sint elapsedEpoch)"
  let ?num = "101251 ^ ?n * 1 * collateral" and ?den = "(100000::int) ^ ?n * 1000"
  have num: "0 \<le> ?num" using assms by simp
  have den: "0 < ?den" by simp
  have code: "rewardForConsensusSlashReport elapsedEpoch collateral =
      min (?num div ?den) (collateral div 2)"
    unfolding rewardForConsensusSlashReport_def Let_def big_Exp_def
      consensusFaultReporterShareGrowthRate_def consensusFaultReporterInitialShare_def
    using big_Div_nonneg [OF num den] big_Div_nonneg [of collateral 2] assms by simp
  have "\<lfloor>reward_spec ?n collateral\<rfloor> =
      min \<lfloor>(of_int ?num :: rat) / of_int ?den\<rfloor> \<lfloor>(of_int collateral :: rat) / of_int 2\<rfloor>"
    unfolding reward_spec_def floor_min_rat reward_num_denom by simp
  also have "\<dots> = min (?num div ?den) (collateral div 2)"
    by (simp only: floor_divide_of_int_eq)
  finally have eq: "rewardForConsensusSlashReport elapsedEpoch collateral =
      \<lfloor>reward_spec ?n collateral\<rfloor>" using code by simp
  have le: "rewardForConsensusSlashReport elapsedEpoch collateral \<le> collateral div 2"
    unfolding code by simp
  have "(of_int (collateral div 2) :: rat) \<le> of_int collateral / 2"
    using of_int_floor_le [of "(of_int collateral :: rat) / of_int 2"]
    by (simp only: floor_divide_of_int_eq of_int_numeral)
  moreover have "(of_int (rewardForConsensusSlashReport elapsedEpoch collateral) :: rat)
       \<le> of_int (collateral div 2)" using le by (simp only: of_int_le_iff)
  ultimately show ?thesis using eq le by linarith
qed

theorem reward_refines_spec_witness:
  "0 \<le> sint (3 :: 64 word) \<and> (0::int) \<le> 1000000 \<and>
   rewardForConsensusSlashReport 3 1000000 = 1038 \<and>
   \<lfloor>reward_spec (nat (sint (3 :: 64 word))) 1000000\<rfloor> = 1038"
  using reward_refines_spec [of 3 1000000]
  by (simp add: rewardForConsensusSlashReport_def big_Exp_def big_Div_def signed_divide_int_def
      consensusFaultReporterShareGrowthRate_def consensusFaultReporterInitialShare_def)

section \<open>Properties: vesting\<close>

lemmas vesting_eval =
  AddLockedFunds_def AddLockedFunds_loop.simps AddLockedFunds_step_def quantizeUp_def
  i64_rem_def i64_less_def signed_modulo_int_def big_Div_def signed_divide_int_def
  EpochKey_def Array_Get_def UnlockVestedFunds_def UnlockUnvestedFunds_def deleteMany_def
  Array_Delete_def

text \<open>
  Claim C4: on a miner state with an empty vesting table and no locked funds,
  \<^verbatim>\<open>AddLockedFunds(now=0, vestingSum=1000, spec={InitialDelay=0, VestPeriod=100, StepDuration=10, Quantization=10})\<close>
  returns with \<^verbatim>\<open>VestingFunds = {10:100, 20:100, ..., 100:100}\<close> and \<^verbatim>\<open>LockedFunds = 1000\<close>; then
  \<^verbatim>\<open>UnlockVestedFunds(55)\<close> returns 500 and leaves the table \<^verbatim>\<open>{60:100, ..., 100:100}\<close>.
  Each step's target is \<^verbatim>\<open>vestingSum * elapsed / VestPeriod\<close> with truncated division while
  \<^verbatim>\<open>elapsed < VestPeriod\<close>, and the whole sum from then on.
\<close>

theorem vesting_scenario:
  assumes "VestingFunds st = []" and "LockedFunds st = 0"
  shows "AddLockedFunds st 0 1000 scenario_spec =
           Some (Inr (st\<lparr>VestingFunds := [(10, 100), (20, 100), (30, 100), (40, 100), (50, 100),
                        (60, 100), (70, 100), (80, 100), (90, 100), (100, 100)],
                      LockedFunds := 1000\<rparr>))
       \<and> UnlockVestedFunds
           (st\<lparr>VestingFunds := [(10, 100), (20, 100), (30, 100), (40, 100), (50, 100),
                        (60, 100), (70, 100), (80, 100), (90, 100), (100, 100)],
                      LockedFunds := 1000\<rparr>) 55 =
           Inr (st\<lparr>VestingFunds := [(60, 100), (70, 100), (80, 100), (90, 100), (100, 100)],
                    LockedFunds := 500\<rparr>, 500)
       \<and> (\<forall>e vested tbl. \<exists>vestEpoch tbl'.
             quantizeUp e (Quantization scenario_spec) = Inr vestEpoch
           \<and> AddLockedFunds_step 1000 scenario_spec 0 e vested tbl =
               Inr (if sint vestEpoch < sint (VestPeriod scenario_spec)
                    then (1000 * sint vestEpoch) sdiv sint (VestPeriod scenario_spec)
                    else 1000, tbl'))"
  using assms by (simp add: vesting_eval scenario_spec_def Let_def)

theorem vesting_scenario_witness:
  "VestingFunds \<lparr>PreCommitDeposits = 0, LockedFunds = 0, VestingFunds = [], NewSectors = {},
      SectorExpirations = [], Faults = {}, FaultEpochs = [], Recoveries = {},
      PostSubmissions = {}\<rparr> = []
   \<and> AddLockedFunds \<lparr>PreCommitDeposits = 0, LockedFunds = 0, VestingFunds = [], NewSectors = {},
      SectorExpirations = [], Faults = {}, FaultEpochs = [], Recoveries = {},
      PostSubmissions = {}\<rparr> 0 1000 scenario_spec =
       Some (Inr \<lparr>PreCommitDeposits = 0, LockedFunds = 1000,
          VestingFunds = [(10, 100), (20, 100), (30, 100), (40, 100), (50, 100),
                        (60, 100), (70, 100), (80, 100), (90, 100), (100, 100)],
          NewSectors = {}, SectorExpirations = [], Faults = {}, FaultEpochs = [],
          Recoveries = {}, PostSubmissions = {}\<rparr>)"
  using vesting_scenario [of "\<lparr>PreCommitDeposits = 0, LockedFunds = 0, VestingFunds = [],
      NewSectors = {}, SectorExpirations = [], Faults = {}, FaultEpochs = [], Recoveries = {},
      PostSubmissions = {}\<rparr>"]
  by simp

subsection \<open>Tables as ascending entry lists\<close>

lemma Msum_Nil [simp]: "Msum D [] = 0" by (simp add: Msum_def)
lemma Msum_Cons [simp]: "Msum D ((k, v) # arr) = (if k \<in> D then 0 else v) + Msum D arr"
  by (simp add: Msum_def)
lemma Msum_empty: "Msum {} arr = sum_list (map snd arr)" by (simp add: Msum_def)

lemma Array_wf_Nil [simp]: "Array_wf []" by (simp add: Array_wf_def)
lemma Array_wf_Cons:
  "Array_wf ((k, v) # arr) \<longleftrightarrow> (\<forall>k' \<in> set (map fst arr). k < k') \<and> Array_wf arr"
  by (simp add: Array_wf_def)

lemma Array_wf_distinct: "Array_wf arr \<Longrightarrow> distinct (map fst arr)"
  unfolding Array_wf_def by (simp add: strict_sorted_iff)

lemma Array_wf_map_of: "Array_wf arr \<Longrightarrow> (k, v) \<in> set arr \<Longrightarrow> map_of arr k = Some v"
  by (simp add: Array_wf_distinct)

lemma map_of_less_None:
  fixes k :: "64 word"
  assumes "\<forall>k' \<in> set (map fst arr). k < k'"
  shows "map_of arr k = None"
proof -
  have "k \<notin> fst ` set arr" using assms by (auto simp: image_iff)
  then show ?thesis by (simp add: map_of_eq_None_iff)
qed

lemma filter_keys_neq:
  assumes "k \<notin> set (map fst arr)"
  shows "{kv \<in> set arr. fst kv \<noteq> k} = set arr"
  using assms by force

lemma Array_Set_keeps:
  "(k2, v2) \<in> set arr \<Longrightarrow> k2 \<noteq> k \<Longrightarrow> (k2, v2) \<in> set (Array_Set k v arr)"
  by (induction arr) auto

lemma keys_Array_Set_iff:
  "x \<in> fst ` set (Array_Set k v arr) \<longleftrightarrow> x = k \<or> x \<in> fst ` set arr"
  by (induction arr) (force+)

lemma keys_Array_Set:
  "fst ` set (Array_Set k v arr) = insert k (fst ` set arr)"
  by (rule set_eqI) (simp only: keys_Array_Set_iff insert_iff)

lemma Array_wf_Set: "Array_wf arr \<Longrightarrow> Array_wf (Array_Set k v arr)"
proof (induction arr)
  case Nil then show ?case by (simp add: Array_wf_Cons)
next
  case (Cons a arr)
  obtain k' v' where a: "a = (k', v')" by (cases a)
  from Cons.prems have wf: "Array_wf arr" and lt: "\<forall>k2 \<in> set (map fst arr). k' < k2"
    by (simp_all add: a Array_wf_Cons)
  show ?case
  proof (cases "k < k'")
    case True
    then have "\<forall>k2 \<in> set (map fst arr). k < k2" using lt by auto
    with True wf lt show ?thesis by (simp add: a Array_wf_Cons)
  next
    case False
    show ?thesis
    proof (cases "k = k'")
      case True
      with wf lt show ?thesis by (simp add: a Array_wf_Cons)
    next
      case neq: False
      then have "k' < k" using False by auto
      with neq False Cons.IH [OF wf] lt show ?thesis
        by (simp add: a Array_wf_Cons keys_Array_Set)
    qed
  qed
qed

lemma Msum_Array_Set:
  "Array_wf arr \<Longrightarrow> k \<notin> D \<Longrightarrow>
   Msum D (Array_Set k v arr) = Msum D arr - (case map_of arr k of None \<Rightarrow> 0 | Some v0 \<Rightarrow> v0) + v"
proof (induction arr)
  case Nil then show ?case by simp
next
  case (Cons a arr)
  obtain k' v' where a: "a = (k', v')" by (cases a)
  from Cons.prems have wf: "Array_wf arr" and lt: "\<forall>k2 \<in> set (map fst arr). k' < k2"
    by (simp_all add: a Array_wf_Cons)
  show ?case
  proof (cases "k < k'")
    case True
    then have "\<forall>k2 \<in> set (map fst arr). k < k2" using lt by auto
    then have "map_of arr k = None" by (rule map_of_less_None)
    with True Cons.prems show ?thesis by (auto simp: a)
  next
    case False
    show ?thesis
    proof (cases "k = k'")
      case True
      then show ?thesis using Cons.prems by (simp add: a)
    next
      case neq: False
      with False Cons.IH [OF wf Cons.prems(2)] show ?thesis by (simp add: a)
    qed
  qed
qed

lemma Msum_insert:
  "Array_wf arr \<Longrightarrow> map_of arr k = Some v0 \<Longrightarrow> k \<notin> D \<Longrightarrow> Msum (insert k D) arr = Msum D arr - v0"
proof (induction arr)
  case Nil then show ?case by simp
next
  case (Cons a arr)
  obtain k' v' where a: "a = (k', v')" by (cases a)
  from Cons.prems have wf: "Array_wf arr" and lt: "\<forall>k2 \<in> set (map fst arr). k' < k2"
    by (simp_all add: a Array_wf_Cons)
  show ?case
  proof (cases "k = k'")
    case True
    have "map_of arr k = None" using lt True by (simp add: map_of_less_None)
    then have "k \<notin> fst ` set arr" by (simp add: map_of_eq_None_iff)
    then have "filter (\<lambda>kv. fst kv \<notin> insert k D) arr = filter (\<lambda>kv. fst kv \<notin> D) arr"
      by (intro filter_cong) auto
    then have "Msum (insert k D) arr = Msum D arr" by (simp add: Msum_def)
    with True Cons.prems show ?thesis by (simp add: a)
  next
    case False
    with Cons.prems have "map_of arr k = Some v0" by (simp add: a)
    from Cons.IH [OF wf this Cons.prems(3)] False show ?thesis by (auto simp: a)
  qed
qed

lemma deleteMany_filter: "deleteMany arr keys = filter (\<lambda>kv. fst kv \<notin> set keys) arr"
  unfolding deleteMany_def
  by (induction keys arbitrary: arr) (simp_all add: Array_Delete_def conj_commute)

lemma Array_wf_filter: "Array_wf arr \<Longrightarrow> Array_wf (filter P arr)"
  by (induction arr) (auto simp: Array_wf_def)

lemma sum_deleteMany: "sum_list (map snd (deleteMany arr keys)) = Msum (set keys) arr"
  by (simp add: deleteMany_filter Msum_def)

lemma UnlockVestedFunds_iter_sum:
  assumes "Array_wf vf" "set rest \<subseteq> set vf" "distinct (map fst rest)"
    "fst ` set rest \<inter> set del = {}"
    "UnlockVestedFunds_iter cur rest amt del = (amt', del')"
  shows "Msum (set del') vf + amt' = Msum (set del) vf + amt"
  using assms
proof (induction rest arbitrary: amt del)
  case Nil then show ?case by simp
next
  case (Cons a rest)
  obtain k v where a: "a = (k, v)" by (cases a)
  show ?case
  proof (cases "i64_less k cur")
    case True
    have kv: "map_of vf k = Some v" using Cons.prems(1,2) by (simp add: a Array_wf_map_of)
    have knd: "k \<notin> set del" using Cons.prems(4) by (auto simp: a)
    have step: "Msum (set (del @ [k])) vf = Msum (set del) vf - v"
      using Msum_insert [OF Cons.prems(1) kv knd] by simp
    have "Msum (set del') vf + amt' = Msum (set (del @ [k])) vf + (amt + v)"
    proof (rule Cons.IH [OF Cons.prems(1)])
      show "set rest \<subseteq> set vf" using Cons.prems(2) by auto
      show "distinct (map fst rest)" using Cons.prems(3) by simp
      show "fst ` set rest \<inter> set (del @ [k]) = {}" using Cons.prems(3,4) by (auto simp: a)
      show "UnlockVestedFunds_iter cur rest (amt + v) (del @ [k]) = (amt', del')"
        using Cons.prems(5) True by (simp add: a)
    qed
    with step show ?thesis by simp
  next
    case False
    with Cons.prems(5) show ?thesis by (simp add: a)
  qed
qed

lemma UnlockUnvestedFunds_iter_sum:
  assumes "Array_wf vf" "set rest \<subseteq> set vf" "distinct (map fst rest)"
    "fst ` set rest \<inter> set del = {}"
    "UnlockUnvestedFunds_iter cur target rest amt del vf = (amt', del', vf')"
  shows "Msum (set del') vf' + amt' = Msum (set del) vf + amt \<and> Array_wf vf'"
  using assms
proof (induction rest arbitrary: amt del vf)
  case Nil then show ?case by simp
next
  case (Cons a rest)
  obtain k v where a: "a = (k, v)" by (cases a)
  have kv: "map_of vf k = Some v" using Cons.prems(1,2) by (simp add: a Array_wf_map_of)
  have knd: "k \<notin> set del" using Cons.prems(4) by (auto simp: a)
  have sub: "set rest \<subseteq> set vf" using Cons.prems(2) by auto
  have dis: "distinct (map fst rest)" using Cons.prems(3) by simp
  have knr: "k \<notin> fst ` set rest" using Cons.prems(3) by (simp add: a)
  have disj: "fst ` set rest \<inter> set del = {}" using Cons.prems(4) by auto
  show ?case
  proof (cases "amt < target")
    case False
    with Cons.prems(1,5) show ?thesis by (simp add: a)
  next
    case lt: True
    show ?thesis
    proof (cases "i64_less k cur")
      case True
      with lt Cons.prems(5) have "UnlockUnvestedFunds_iter cur target rest amt del vf = (amt', del', vf')"
        by (simp add: a)
      from Cons.IH [OF Cons.prems(1) sub dis disj this] show ?thesis .
    next
      case False
      let ?u = "min (target - amt) v"
      show ?thesis
      proof (cases "v - ?u = 0")
        case True
        with lt False Cons.prems(5)
        have it: "UnlockUnvestedFunds_iter cur target rest (amt + ?u) (del @ [k]) vf = (amt', del', vf')"
          by (simp add: a Let_def del: min_less_iff_conj split: if_splits)
        have "fst ` set rest \<inter> set (del @ [k]) = {}" using disj knr by auto
        from Cons.IH [OF Cons.prems(1) sub dis this it]
        have "Msum (set del') vf' + amt' = Msum (set (del @ [k])) vf + (amt + ?u)" and "Array_wf vf'"
          by simp_all
        moreover have "Msum (set (del @ [k])) vf = Msum (set del) vf - v"
          using Msum_insert [OF Cons.prems(1) kv knd] by simp
        ultimately show ?thesis using True by simp
      next
        case nz: False
        let ?vf = "Array_Set k (v - ?u) vf"
        from nz lt False Cons.prems(5)
        have it: "UnlockUnvestedFunds_iter cur target rest (amt + ?u) del ?vf = (amt', del', vf')"
          by (simp only: a UnlockUnvestedFunds_iter.simps Let_def if_True if_False not_False_eq_True)
        have wf': "Array_wf ?vf" using Cons.prems(1) by (rule Array_wf_Set)
        have sub': "set rest \<subseteq> set ?vf"
        proof
          fix x assume x: "x \<in> set rest"
          obtain k2 v2 where x2: "x = (k2, v2)" by (cases x)
          have "k2 \<noteq> k" using x knr x2 by force
          moreover have "(k2, v2) \<in> set vf" using x sub x2 by auto
          ultimately show "x \<in> set ?vf" unfolding x2 by (rule Array_Set_keeps [rotated])
        qed
        from Cons.IH [OF wf' sub' dis disj it]
        have "Msum (set del') vf' + amt' = Msum (set del) ?vf + (amt + ?u)" and "Array_wf vf'"
          by simp_all
        moreover have "Msum (set del) ?vf = Msum (set del) vf - v + (v - ?u)"
          using Msum_Array_Set [OF Cons.prems(1) knd, of "v - ?u"] kv by simp
        ultimately show ?thesis by simp
      qed
    qed
  qed
qed

lemma step_target_le:
  assumes vs: "0 \<le> vs" and vp: "0 \<le> sint (VestPeriod spec)"
    and st: "AddLockedFunds_step vs spec vb e vested vf = Inr (target, vf')"
    and wf: "Array_wf vf"
  shows "target \<le> vs \<and> Array_wf vf' \<and>
         sum_list (map snd vf') = sum_list (map snd vf) + (target - vested)"
proof -
  from st obtain ve where q: "quantizeUp e (Quantization spec) = Inr ve"
    by (auto simp: AddLockedFunds_step_def split: sum.splits)
  let ?el = "ve - vb"
  let ?p = "sint (VestPeriod spec)"
  let ?t = "if i64_less ?el (VestPeriod spec) then big_Div (vs * sint ?el) ?p else vs"
  let ?old = "case Array_Get vf (EpochKey ve) of None \<Rightarrow> 0 | Some v \<Rightarrow> v"
  from st q have nz: "\<not> (i64_less ?el (VestPeriod spec) \<and> ?p = 0)"
    by (auto simp: AddLockedFunds_step_def Let_def split: if_splits)
  from st q nz have t: "target = ?t"
    and vf': "vf' = Array_Set (EpochKey ve) (?old + (?t - vested)) vf"
    by (auto simp: AddLockedFunds_step_def Let_def split: if_splits)
  have le: "?t \<le> vs"
  proof (cases "i64_less ?el (VestPeriod spec)")
    case False then show ?thesis by simp
  next
    case True
    then have lt: "sint ?el < ?p" by (simp add: i64_less_def)
    with vp nz True have ppos: "0 < ?p" by linarith
    show ?thesis
    proof (cases "0 \<le> sint ?el")
      case True
      then have "big_Div (vs * sint ?el) ?p = (vs * sint ?el) div ?p"
        using vs ppos by (simp add: big_Div_nonneg)
      also have "\<dots> \<le> (vs * ?p) div ?p"
        using vs lt ppos by (intro zdiv_mono1 mult_left_mono) auto
      also have "\<dots> = vs" using ppos by simp
      finally show ?thesis using \<open>i64_less ?el (VestPeriod spec)\<close> by simp
    next
      case False
      then have "vs * sint ?el \<le> 0" using vs by (simp add: mult_nonneg_nonpos)
      then have "big_Div (vs * sint ?el) ?p \<le> 0"
        using ppos by (auto simp: big_Div_def signed_divide_int_def sgn_if
            intro: mult_nonneg_nonneg pos_imp_zdiv_nonneg_iff [THEN iffD2])
      with vs show ?thesis using \<open>i64_less ?el (VestPeriod spec)\<close> by simp
    qed
  qed
  have "sum_list (map snd vf') = sum_list (map snd vf) - ?old + (?old + (?t - vested))"
    using Msum_Array_Set [OF wf, of "EpochKey ve" "{}" "?old + (?t - vested)"]
    by (simp add: vf' Msum_empty Array_Get_def)
  then show ?thesis using le t wf by (simp add: vf' Array_wf_Set)
qed

lemma AddLockedFunds_loop_post:
  assumes "AddLockedFunds_loop vs spec vb e vested vf = Some r"
  shows "loop_post vs spec vb e vested vf r"
proof (rule AddLockedFunds_loop.raw_induct [where P = loop_post, OF _ assms])
  fix f vs spec vb e vested vf r
  assume IH: "\<And>vs spec vb e vested vf r.
      f vs spec vb e vested vf = Some r \<Longrightarrow> loop_post vs spec vb e vested vf r"
    and body: "(if vested < vs
      then (case AddLockedFunds_step vs spec vb e vested vf of
              Inl err \<Rightarrow> Some (Inl err)
            | Inr (targetVest, vestingFunds') \<Rightarrow>
                f vs spec vb (e + StepDuration spec) targetVest vestingFunds')
      else Some (Inr vf)) = Some r"
  show "loop_post vs spec vb e vested vf r"
    unfolding loop_post_def
  proof (intro impI allI)
    fix vf'
    assume vs: "0 \<le> vs" and vp: "0 \<le> sint (VestPeriod spec)" and le: "vested \<le> vs"
      and wf: "Array_wf vf" and r: "r = Inr vf'"
    show "Array_wf vf' \<and> sum_list (map snd vf') = sum_list (map snd vf) + (vs - vested)"
    proof (cases "vested < vs")
      case False
      with body r le wf show ?thesis by simp
    next
      case True
      from True body r obtain target vf1 where
        st: "AddLockedFunds_step vs spec vb e vested vf = Inr (target, vf1)"
        and rec: "f vs spec vb (e + StepDuration spec) target vf1 = Some (Inr vf')"
        by (auto split: sum.splits)
      from step_target_le [OF vs vp st wf]
      have tle: "target \<le> vs" and wf1: "Array_wf vf1"
        and s1: "sum_list (map snd vf1) = sum_list (map snd vf) + (target - vested)" by simp_all
      from IH [OF rec] vs vp tle wf1
      have "Array_wf vf' \<and> sum_list (map snd vf') = sum_list (map snd vf1) + (vs - target)"
        by (simp add: loop_post_def)
      with s1 show ?thesis by simp
    qed
  qed
qed

lemma AddLockedFunds_loop_sum:
  assumes "AddLockedFunds_loop vs spec vb e vested vf = Some (Inr vf')"
    and "0 \<le> vs" "0 \<le> sint (VestPeriod spec)" "vested \<le> vs" "Array_wf vf"
  shows "Array_wf vf'" "sum_list (map snd vf') = sum_list (map snd vf) + (vs - vested)"
  using AddLockedFunds_loop_post [OF assms(1)] assms(2-) by (simp_all add: loop_post_def)

text \<open>
  Claim C5, as stated: if \<^verbatim>\<open>sum(VestingFunds.values) == LockedFunds\<close> holds before
  \<^verbatim>\<open>AddLockedFunds\<close> (with non-negative \<^verbatim>\<open>vestingSum\<close>) succeeds, it holds afterwards. With a
  negative \<^verbatim>\<open>VestPeriod\<close> and a negative step the first target is ten times the sum: the
  table gains 1000 while \<^verbatim>\<open>LockedFunds\<close> gains 100.
\<close>

theorem vesting_inv_broken_by_negative_period:
  "vesting_inv ConstructState
   \<and> (0::int) \<le> 100
   \<and> AddLockedFunds ConstructState 100 100
        \<lparr>InitialDelay = 0, VestPeriod = - 1, StepDuration = - 10, Quantization = 1\<rparr> =
      Some (Inr (ConstructState\<lparr>VestingFunds := [(90, 1000)], LockedFunds := 100\<rparr>))
   \<and> \<not> vesting_inv (ConstructState\<lparr>VestingFunds := [(90, 1000)], LockedFunds := 100\<rparr>)"
  by (simp add: vesting_eval ConstructState_def vesting_inv_def Let_def)

text \<open>
  Claim C5, amended: on a miner state whose vesting table is a well-formed array and
  satisfies \<^verbatim>\<open>sum(VestingFunds.values) == LockedFunds\<close>, the invariant (and the table's
  well-formedness) holds again after \<^verbatim>\<open>AddLockedFunds\<close> succeeds with a vesting spec whose
  \<^verbatim>\<open>VestPeriod\<close> is non-negative (success implies a non-negative \<^verbatim>\<open>vestingSum\<close>), after
  \<^verbatim>\<open>UnlockVestedFunds\<close> succeeds, and after \<^verbatim>\<open>UnlockUnvestedFunds\<close> succeeds.
\<close>

theorem vesting_inv_preserved:
  assumes wf: "Array_wf (VestingFunds st)" and inv: "vesting_inv st"
  shows "(0 \<le> sint (VestPeriod spec) \<and> AddLockedFunds st now vestingSum spec = Some (Inr st1)
            \<longrightarrow> 0 \<le> vestingSum \<and> vesting_inv st1 \<and> Array_wf (VestingFunds st1))
       \<and> (UnlockVestedFunds st now = Inr (st2, amount2)
            \<longrightarrow> vesting_inv st2 \<and> Array_wf (VestingFunds st2))
       \<and> (UnlockUnvestedFunds st now target = Inr (st3, amount3)
            \<longrightarrow> vesting_inv st3 \<and> Array_wf (VestingFunds st3))"
proof (intro conjI impI)
  assume a: "0 \<le> sint (VestPeriod spec) \<and> AddLockedFunds st now vestingSum spec = Some (Inr st1)"
  then have vp: "0 \<le> sint (VestPeriod spec)"
    and r: "AddLockedFunds st now vestingSum spec = Some (Inr st1)" by simp_all
  from r have vs: "0 \<le> vestingSum" by (auto simp: AddLockedFunds_def split: if_splits)
  from r vs obtain vf' where
    loop: "AddLockedFunds_loop vestingSum spec (now + InitialDelay spec)
             (now + InitialDelay spec + StepDuration spec) 0 (VestingFunds st) = Some (Inr vf')"
    and st1: "st1 = st\<lparr>VestingFunds := vf', LockedFunds := LockedFunds st + vestingSum\<rparr>"
    by (auto simp: AddLockedFunds_def Let_def split: if_splits option.splits sum.splits)
  from AddLockedFunds_loop_sum [OF loop vs vp _ wf] vs
  have "Array_wf vf'" "sum_list (map snd vf') = sum_list (map snd (VestingFunds st)) + vestingSum"
    by simp_all
  with inv show "0 \<le> vestingSum" "vesting_inv st1" "Array_wf (VestingFunds st1)"
    using vs by (simp_all add: st1 vesting_inv_def)
next
  assume r: "UnlockVestedFunds st now = Inr (st2, amount2)"
  obtain amt del where it: "UnlockVestedFunds_iter now (VestingFunds st) 0 [] = (amt, del)"
    by (cases "UnlockVestedFunds_iter now (VestingFunds st) 0 []")
  from r it have st2: "st2 = st\<lparr>LockedFunds := LockedFunds st - amt,
      VestingFunds := deleteMany (VestingFunds st) del\<rparr>"
    by (auto simp: UnlockVestedFunds_def Let_def split: if_splits)
  have "Msum (set del) (VestingFunds st) + amt = Msum (set []) (VestingFunds st) + 0"
    by (rule UnlockVestedFunds_iter_sum [OF wf _ _ _ it]) (simp_all add: Array_wf_distinct [OF wf])
  then have "sum_list (map snd (deleteMany (VestingFunds st) del)) =
      sum_list (map snd (VestingFunds st)) - amt"
    by (simp add: sum_deleteMany Msum_empty)
  with inv show "vesting_inv st2" by (simp add: st2 vesting_inv_def)
  show "Array_wf (VestingFunds st2)"
    using wf by (simp add: st2 deleteMany_filter Array_wf_filter)
next
  assume r: "UnlockUnvestedFunds st now target = Inr (st3, amount3)"
  obtain amt del vf' where
    it: "UnlockUnvestedFunds_iter now target (VestingFunds st) 0 [] (VestingFunds st) = (amt, del, vf')"
    by (cases "UnlockUnvestedFunds_iter now target (VestingFunds st) 0 [] (VestingFunds st)")
  from r it have st3: "st3 = st\<lparr>LockedFunds := LockedFunds st - amt,
      VestingFunds := deleteMany vf' del\<rparr>"
    by (auto simp: UnlockUnvestedFunds_def Let_def split: if_splits)
  have "Msum (set del) vf' + amt = Msum (set []) (VestingFunds st) + 0 \<and> Array_wf vf'"
    by (rule UnlockUnvestedFunds_iter_sum [OF wf _ _ _ it]) (simp_all add: Array_wf_distinct [OF wf])
  then have s: "sum_list (map snd (deleteMany vf' del)) = sum_list (map snd (VestingFunds st)) - amt"
    and wf': "Array_wf vf'"
    by (simp_all add: sum_deleteMany Msum_empty)
  from s inv show "vesting_inv st3" by (simp add: st3 vesting_inv_def)
  show "Array_wf (VestingFunds st3)"
    using wf' by (simp add: st3 deleteMany_filter Array_wf_filter)
qed

theorem vesting_inv_preserved_witness:
  "Array_wf (VestingFunds (ConstructState\<lparr>VestingFunds := [(10, 100), (20, 100)], LockedFunds := 200\<rparr>))
   \<and> vesting_inv (ConstructState\<lparr>VestingFunds := [(10, 100), (20, 100)], LockedFunds := 200\<rparr>)
   \<and> 0 \<le> sint (VestPeriod scenario_spec)
   \<and> AddLockedFunds (ConstructState\<lparr>VestingFunds := [(10, 100), (20, 100)], LockedFunds := 200\<rparr>)
        0 1000 scenario_spec =
      Some (Inr (ConstructState\<lparr>VestingFunds := [(10, 200), (20, 200), (30, 100), (40, 100),
         (50, 100), (60, 100), (70, 100), (80, 100), (90, 100), (100, 100)], LockedFunds := 1200\<rparr>))
   \<and> vesting_inv (ConstructState\<lparr>VestingFunds := [(10, 200), (20, 200), (30, 100), (40, 100),
         (50, 100), (60, 100), (70, 100), (80, 100), (90, 100), (100, 100)], LockedFunds := 1200\<rparr>)
   \<and> UnlockVestedFunds (ConstructState\<lparr>VestingFunds := [(10, 100), (20, 100)], LockedFunds := 200\<rparr>) 15 =
      Inr (ConstructState\<lparr>VestingFunds := [(20, 100)], LockedFunds := 100\<rparr>, 100)
   \<and> vesting_inv (ConstructState\<lparr>VestingFunds := [(20, 100)], LockedFunds := 100\<rparr>)
   \<and> UnlockUnvestedFunds (ConstructState\<lparr>VestingFunds := [(10, 100), (20, 100)], LockedFunds := 200\<rparr>)
        0 150 =
      Inr (ConstructState\<lparr>VestingFunds := [(20, 50)], LockedFunds := 50\<rparr>, 150)
   \<and> vesting_inv (ConstructState\<lparr>VestingFunds := [(20, 50)], LockedFunds := 50\<rparr>)"
  using vesting_inv_preserved
    [of "ConstructState\<lparr>VestingFunds := [(10, 100), (20, 100)], LockedFunds := 200\<rparr>"
        scenario_spec 0 1000]
  by (simp add: vesting_eval ConstructState_def vesting_inv_def scenario_spec_def Array_wf_def
      Let_def)

section \<open>Properties: faults\<close>

lemma Uvals_ran: "Array_wf arr \<Longrightarrow> Uvals arr = \<Union> (ran (map_of arr))"
  by (simp add: Uvals_def ran_distinct Array_wf_distinct)

lemma map_of_Array_Set: "map_of (Array_Set k v arr) = (map_of arr)(k \<mapsto> v)"
  by (induction arr) (auto simp: fun_eq_iff)

lemma Union_ran_upd:
  "\<Union> (ran (m(k \<mapsto> v))) = v \<union> \<Union> (ran (m(k := None)))"
  by (auto simp: ran_def split: if_splits)

lemma Union_ran_split:
  "\<Union> (ran m) = (case m k of None \<Rightarrow> {} | Some b \<Rightarrow> b) \<union> \<Union> (ran (m(k := None)))"
proof (rule set_eqI)
  fix x
  have "x \<in> \<Union> (ran m) \<longleftrightarrow> (\<exists>a X. m a = Some X \<and> x \<in> X)"
    by (auto simp: ran_def)
  also have "\<dots> \<longleftrightarrow> (\<exists>X. m k = Some X \<and> x \<in> X) \<or> (\<exists>a X. a \<noteq> k \<and> m a = Some X \<and> x \<in> X)"
    by metis
  also have "(\<exists>X. m k = Some X \<and> x \<in> X) \<longleftrightarrow> x \<in> (case m k of None \<Rightarrow> {} | Some b \<Rightarrow> b)"
    by (cases "m k") auto
  also have "(\<exists>a X. a \<noteq> k \<and> m a = Some X \<and> x \<in> X) \<longleftrightarrow> x \<in> \<Union> (ran (m(k := None)))"
    by (auto simp: ran_def)
  finally show "x \<in> \<Union> (ran m) \<longleftrightarrow>
      x \<in> (case m k of None \<Rightarrow> {} | Some b \<Rightarrow> b) \<union> \<Union> (ran (m(k := None)))"
    by simp
qed


lemma Uvals_Array_Set:
  assumes wf: "Array_wf arr"
  shows "Uvals (Array_Set k ((case map_of arr k of None \<Rightarrow> {} | Some b \<Rightarrow> b) \<union> s) arr) =
         Uvals arr \<union> s"
proof -
  let ?old = "case map_of arr k of None \<Rightarrow> {} | Some b \<Rightarrow> b"
  have "Uvals (Array_Set k (?old \<union> s) arr) = \<Union> (ran (map_of (Array_Set k (?old \<union> s) arr)))"
    by (rule Uvals_ran) (rule Array_wf_Set [OF wf])
  also have "\<dots> = (?old \<union> s) \<union> \<Union> (ran ((map_of arr)(k := None)))"
    by (simp only: map_of_Array_Set Union_ran_upd)
  also have "\<dots> = \<Union> (ran (map_of arr)) \<union> s"
    using Union_ran_split [of "map_of arr" k] by auto
  finally show ?thesis by (simp add: Uvals_ran [OF wf])
qed

lemma changed_keys: "fst ` set (RemoveFaults_changed s arr) \<subseteq> fst ` set arr"
  by (induction arr) (force simp: Let_def split: if_splits)+

lemma changed_distinct:
  "distinct (map fst arr) \<Longrightarrow> distinct (map fst (RemoveFaults_changed s arr))"
proof (induction arr)
  case Nil then show ?case by simp
next
  case (Cons a arr)
  obtain i bf where a: "a = (i, bf)" by (cases a)
  have "i \<notin> fst ` set (RemoveFaults_changed s arr)"
    using Cons.prems changed_keys [of s arr] by (auto simp: a)
  with Cons show ?case by (simp add: a Let_def)
qed

lemma card_Diff_eq:
  fixes b :: "64 word set"
  shows "card b = card (b - s) \<longleftrightarrow> b - s = b"
proof
  assume "card b = card (b - s)"
  then show "b - s = b" by (intro card_subset_eq) auto
qed simp

lemma map_of_changed:
  "distinct (map fst arr) \<Longrightarrow>
   map_of (RemoveFaults_changed s arr) k =
     (case map_of arr k of None \<Rightarrow> None
      | Some b \<Rightarrow> if b - s = b then None else Some (b - s))"
proof (induction arr)
  case Nil then show ?case by simp
next
  case (Cons a arr)
  obtain i bf where a: "a = (i, bf)" by (cases a)
  from Cons.prems have d: "distinct (map fst arr)" and ni: "i \<notin> fst ` set arr" by (auto simp: a)
  have "i \<notin> fst ` set (RemoveFaults_changed s arr)" using ni changed_keys [of s arr] by auto
  then have none: "map_of (RemoveFaults_changed s arr) i = None" by (simp add: map_of_eq_None_iff)
  show ?case
    using Cons.IH [OF d] none by (auto simp: a Let_def card_Diff_eq)
qed

lemma map_of_fold_Set:
  "distinct (map fst ch) \<Longrightarrow>
   map_of (fold (\<lambda>(i, field) a. Array_Set i field a) ch arr) = map_of arr ++ map_of ch"
proof (induction ch arbitrary: arr)
  case Nil then show ?case by simp
next
  case (Cons c ch)
  obtain i f where c: "c = (i, f)" by (cases c)
  from Cons.prems have d: "distinct (map fst ch)" and ni: "i \<notin> dom (map_of ch)"
    by (auto simp: c dom_map_of_conv_image_fst)
  have "fold (\<lambda>(i, field) a. Array_Set i field a) (c # ch) arr =
      fold (\<lambda>(i, field) a. Array_Set i field a) ch (Array_Set i f arr)"
    by (simp add: c)
  then have "map_of (fold (\<lambda>(i, field) a. Array_Set i field a) (c # ch) arr) =
      (map_of arr)(i \<mapsto> f) ++ map_of ch"
    by (simp only: Cons.IH [OF d] map_of_Array_Set)
  also have "\<dots> = (map_of arr ++ map_of ch)(i \<mapsto> f)" using ni by (rule map_add_upd_left)
  also have "\<dots> = map_of arr ++ map_of (c # ch)"
    by (simp only: c map_of.simps map_add_upd fst_conv snd_conv)
  finally show ?case .
qed

lemma Array_wf_fold_Set:
  "Array_wf arr \<Longrightarrow> Array_wf (fold (\<lambda>(i, field) a. Array_Set i field a) ch arr)"
  by (induction ch arbitrary: arr) (auto simp: Array_wf_Set)

lemma map_of_RemoveFaults:
  assumes wf: "Array_wf arr"
  shows "map_of (fold (\<lambda>(i, field) a. Array_Set i field a) (RemoveFaults_changed s arr) arr) =
         (\<lambda>k. map_option (\<lambda>b. b - s) (map_of arr k))"
proof
  fix k
  have d: "distinct (map fst arr)" by (rule Array_wf_distinct [OF wf])
  show "map_of (fold (\<lambda>(i, field) a. Array_Set i field a) (RemoveFaults_changed s arr) arr) k =
      map_option (\<lambda>b. b - s) (map_of arr k)"
    by (simp add: map_of_fold_Set [OF changed_distinct [OF d]] map_add_def map_of_changed [OF d]
        split: option.splits)
qed

lemma Uvals_RemoveFaults:
  assumes wf: "Array_wf arr"
  shows "Uvals (fold (\<lambda>(i, field) a. Array_Set i field a) (RemoveFaults_changed s arr) arr) =
         Uvals arr - s"
proof -
  let ?arr' = "fold (\<lambda>(i, field) a. Array_Set i field a) (RemoveFaults_changed s arr) arr"
  have "Uvals ?arr' = \<Union> (ran (map_of ?arr'))"
    by (rule Uvals_ran) (rule Array_wf_fold_Set [OF wf])
  also have "\<dots> = \<Union> ((\<lambda>b. b - s) ` ran (map_of arr))"
    by (simp only: map_of_RemoveFaults [OF wf] ran_map_option)
  also have "\<dots> = \<Union> (ran (map_of arr)) - s" by auto
  finally show ?thesis by (simp add: Uvals_ran [OF wf])
qed

text \<open>
  Claim C7: on a miner state whose \<^verbatim>\<open>FaultEpochs\<close> table is a well-formed array and which
  satisfies \<^verbatim>\<open>Faults == union of all FaultEpochs values\<close>, the invariant holds again after
  \<^verbatim>\<open>AddFaults(sectorNos, faultEpoch)\<close> succeeds and after \<^verbatim>\<open>RemoveFaults(sectorNos)\<close> succeeds.
  \<^verbatim>\<open>AddFaults\<close> adds the sectors to \<^verbatim>\<open>Faults\<close> and to \<^verbatim>\<open>FaultEpochs[faultEpoch]\<close>;
  \<^verbatim>\<open>RemoveFaults\<close> removes them from \<^verbatim>\<open>Faults\<close> and from every \<^verbatim>\<open>FaultEpochs\<close> entry.
\<close>

theorem faults_inv_preserved:
  assumes wf: "Array_wf (FaultEpochs st)" and inv: "faults_inv st"
  shows "(AddFaults st sectorNos faultEpoch = Inr st1 \<longrightarrow>
            faults_inv st1 \<and> Array_wf (FaultEpochs st1) \<and> Faults st1 = Faults st \<union> sectorNos
            \<and> (sectorNos \<noteq> {} \<longrightarrow>
                 (\<exists>bf. Array_Get (FaultEpochs st1) (EpochKey faultEpoch) = Some bf
                       \<and> sectorNos \<subseteq> bf)))
       \<and> (RemoveFaults st sectorNos = Inr st2 \<longrightarrow>
            faults_inv st2 \<and> Array_wf (FaultEpochs st2) \<and> Faults st2 = Faults st - sectorNos
            \<and> (\<forall>kv \<in> set (FaultEpochs st2). snd kv \<inter> sectorNos = {}))"
proof (intro conjI impI)
  assume a: "AddFaults st sectorNos faultEpoch = Inr st1"
  let ?k = "EpochKey faultEpoch"
  let ?old = "case map_of (FaultEpochs st) ?k of None \<Rightarrow> {} | Some b \<Rightarrow> b"
  let ?arr = "Array_Set ?k (?old \<union> sectorNos) (FaultEpochs st)"
  have st1: "sectorNos \<noteq> {} \<Longrightarrow> st1 = st\<lparr>Faults := Faults st \<union> sectorNos, FaultEpochs := ?arr\<rparr>"
    and st1e: "sectorNos = {} \<Longrightarrow> st1 = st"
    using a by (auto simp: AddFaults_def Let_def Array_Get_def split: if_splits)
  have U: "Uvals ?arr = Uvals (FaultEpochs st) \<union> sectorNos" by (rule Uvals_Array_Set [OF wf])
  show "faults_inv st1"
    using inv st1 st1e U by (cases "sectorNos = {}") (auto simp: faults_inv_def Uvals_def)
  show "Array_wf (FaultEpochs st1)"
    using wf st1 st1e by (cases "sectorNos = {}") (auto simp: Array_wf_Set)
  show "Faults st1 = Faults st \<union> sectorNos"
    using st1 st1e by (cases "sectorNos = {}") auto
  show "\<exists>bf. Array_Get (FaultEpochs st1) (EpochKey faultEpoch) = Some bf \<and> sectorNos \<subseteq> bf"
    if "sectorNos \<noteq> {}"
    using st1 [OF that] by (simp add: Array_Get_def map_of_Array_Set)
next
  assume r: "RemoveFaults st sectorNos = Inr st2"
  let ?arr = "fold (\<lambda>(i, field) a. Array_Set i field a)
      (RemoveFaults_changed sectorNos (FaultEpochs st)) (FaultEpochs st)"
  have st2: "sectorNos \<noteq> {} \<Longrightarrow> st2 = st\<lparr>Faults := Faults st - sectorNos, FaultEpochs := ?arr\<rparr>"
    and st2e: "sectorNos = {} \<Longrightarrow> st2 = st"
    using r by (auto simp: RemoveFaults_def Let_def split: if_splits)
  have U: "Uvals ?arr = Uvals (FaultEpochs st) - sectorNos" by (rule Uvals_RemoveFaults [OF wf])
  show "faults_inv st2"
    using inv st2 st2e U by (cases "sectorNos = {}") (auto simp: faults_inv_def Uvals_def)
  show "Array_wf (FaultEpochs st2)"
    using wf st2 st2e by (cases "sectorNos = {}") (auto simp: Array_wf_fold_Set)
  show "Faults st2 = Faults st - sectorNos"
    using st2 st2e by (cases "sectorNos = {}") auto
  show "\<forall>kv \<in> set (FaultEpochs st2). snd kv \<inter> sectorNos = {}"
  proof (cases "sectorNos = {}")
    case True then show ?thesis by simp
  next
    case False
    have "\<And>kv. kv \<in> set ?arr \<Longrightarrow> snd kv \<subseteq> Uvals ?arr" by (auto simp: Uvals_def)
    with U have "\<And>kv. kv \<in> set ?arr \<Longrightarrow> snd kv \<inter> sectorNos = {}" by blast
    with st2 [OF False] show ?thesis by simp
  qed
qed

theorem faults_inv_preserved_witness:
  "Array_wf (FaultEpochs (ConstructState\<lparr>Faults := {1, 2}, FaultEpochs := [(5, {1}), (7, {2})]\<rparr>))
   \<and> faults_inv (ConstructState\<lparr>Faults := {1, 2}, FaultEpochs := [(5, {1}), (7, {2})]\<rparr>)
   \<and> AddFaults (ConstructState\<lparr>Faults := {1, 2}, FaultEpochs := [(5, {1}), (7, {2})]\<rparr>) {3} 7 =
       Inr (ConstructState\<lparr>Faults := {1, 2, 3}, FaultEpochs := [(5, {1}), (7, {2, 3})]\<rparr>)
   \<and> faults_inv (ConstructState\<lparr>Faults := {1, 2, 3}, FaultEpochs := [(5, {1}), (7, {2, 3})]\<rparr>)
   \<and> RemoveFaults (ConstructState\<lparr>Faults := {1, 2}, FaultEpochs := [(5, {1}), (7, {2})]\<rparr>) {1} =
       Inr (ConstructState\<lparr>Faults := {2}, FaultEpochs := [(5, {}), (7, {2})]\<rparr>)
   \<and> faults_inv (ConstructState\<lparr>Faults := {2}, FaultEpochs := [(5, {}), (7, {2})]\<rparr>)"
  using faults_inv_preserved
    [of "ConstructState\<lparr>Faults := {1, 2}, FaultEpochs := [(5, {1}), (7, {2})]\<rparr>"
        "{3}" 7 "ConstructState\<lparr>Faults := {1, 2, 3}, FaultEpochs := [(5, {1}), (7, {2, 3})]\<rparr>"]
  by (auto simp: ConstructState_def faults_inv_def Array_wf_def AddFaults_def RemoveFaults_def
      SectorsMax_def EpochKey_def Array_Get_def Let_def)

end
